theory Spec2Isabelle
  imports Main
begin

section \<open>JavaScript values\<close>

text \<open>
  The synchronization client (\<^verbatim>\<open>useWebSocket\<close>) and the project store
  (\<^verbatim>\<open>stores/project.ts\<close>) handle values that come out of \<^verbatim>\<open>JSON.parse\<close>.
  The TypeScript casts (\<^verbatim>\<open>as string\<close>, \<^verbatim>\<open>as 'pending' | ...\<close>) have no effect
  when the program runs, so a field of a message or of a stored record can hold any
  JavaScript value. Numbers are only copied, compared and tested against zero by this
  code; their type is left as a parameter \<open>'n\<close> (the doubles that a JSON text can
  denote, which excludes NaN). \<open>JObj\<close> lists the own properties of an object; where a
  name occurs twice, the first entry is the property.
\<close>

datatype 'n jsval =
    JUndefined
  | JNull
  | JBool bool
  | JNum 'n
  | JStr string
  | JArr "'n jsval list"
  | JObj "(string \<times> 'n jsval) list"

text \<open>Truthiness, as used by \<^verbatim>\<open>&&\<close> and \<^verbatim>\<open>if\<close>.\<close>

fun truthy :: "('n::zero) jsval \<Rightarrow> bool" where
  "truthy JUndefined = False"
| "truthy JNull = False"
| "truthy (JBool b) = b"
| "truthy (JNum n) = (n \<noteq> 0)"
| "truthy (JStr s) = (s \<noteq> [])"
| "truthy (JArr xs) = True"
| "truthy (JObj kvs) = True"

fun nullish :: "'n jsval \<Rightarrow> bool" where
  "nullish JUndefined = True"
| "nullish JNull = True"
| "nullish v = False"

text \<open>
  \<^verbatim>\<open>a === b\<close> between a value held in the store and a value of the message that is
  being handled. Primitives are compared by value. Objects and arrays are compared by
  reference: every frame is parsed into fresh objects, and the comparisons of
  \<^verbatim>\<open>findIndex\<close> run before the store receives any part of that frame, so an object or
  an array of the message is never identical to a stored one.
\<close>

fun strict_eq :: "'n jsval \<Rightarrow> 'n jsval \<Rightarrow> bool" where
  "strict_eq JUndefined JUndefined = True"
| "strict_eq JNull JNull = True"
| "strict_eq (JBool a) (JBool b) = (a = b)"
| "strict_eq (JNum a) (JNum b) = (a = b)"
| "strict_eq (JStr a) (JStr b) = (a = b)"
| "strict_eq a b = False"

text \<open>
  Reading a property \<^verbatim>\<open>v.k\<close> of a value that is neither \<^verbatim>\<open>null\<close> nor
  \<^verbatim>\<open>undefined\<close>. The program reads only the names \<^verbatim>\<open>task_id\<close>, \<^verbatim>\<open>type\<close>,
  \<^verbatim>\<open>status\<close>, \<^verbatim>\<open>progress\<close>, \<^verbatim>\<open>message\<close>, \<^verbatim>\<open>error\<close>, \<^verbatim>\<open>result\<close>,
  \<^verbatim>\<open>scene_id\<close>, \<^verbatim>\<open>image_url\<close> and \<^verbatim>\<open>video_url\<close>; none of them is defined on a
  primitive, on an array or on a prototype, so only the own properties of an object
  matter. On \<^verbatim>\<open>null\<close> and \<^verbatim>\<open>undefined\<close> the read throws; the callers test
  \<open>nullish\<close> first.
\<close>

fun field :: "'n jsval \<Rightarrow> string \<Rightarrow> 'n jsval" where
  "field (JObj kvs) k = (case map_of kvs k of None \<Rightarrow> JUndefined | Some v \<Rightarrow> v)"
| "field v k = JUndefined"

text \<open>Optional chaining \<^verbatim>\<open>v?.k\<close>.\<close>

definition opt_field :: "'n jsval \<Rightarrow> string \<Rightarrow> 'n jsval" where
  "opt_field v k = (if nullish v then JUndefined else field v k)"

section \<open>The project store: tasks and scenes\<close>

text \<open>
  A stored task or scene is a JavaScript object: a finite map from property names to
  values. \<^verbatim>\<open>{ ...a, ...b }\<close> is \<open>a ++ b\<close>: the properties of \<open>b\<close> override those of
  \<open>a\<close>, also when the value in \<open>b\<close> is \<^verbatim>\<open>undefined\<close>.
\<close>

type_synonym 'n js_object = "string \<rightharpoonup> 'n jsval"

definition prop_of :: "'n js_object \<Rightarrow> string \<Rightarrow> 'n jsval" where
  "prop_of obj k = (case obj k of None \<Rightarrow> JUndefined | Some v \<Rightarrow> v)"

text \<open>\<^verbatim>\<open>Array.prototype.findIndex\<close>; \<open>None\<close> stands for the result \<open>-1\<close>.\<close>

fun findIndex :: "('a \<Rightarrow> bool) \<Rightarrow> 'a list \<Rightarrow> nat option" where
  "findIndex p [] = None"
| "findIndex p (x # xs) = (if p x then Some 0 else map_option Suc (findIndex p xs))"

definition has_id :: "'n jsval \<Rightarrow> 'n js_object \<Rightarrow> bool" where
  "has_id ident obj = strict_eq (prop_of obj ''id'') ident"

text \<open>
  \<^verbatim>\<open>
  function updateScene(sceneId: string, updates: Partial<Scene>) {
    const index = scenes.value.findIndex(s => s.id === sceneId)
    if (index !== -1) {
      scenes.value[index] = { ...scenes.value[index], ...updates }
    }
  }
  \<close>
\<close>

definition updateScene ::
  "'n jsval \<Rightarrow> 'n js_object \<Rightarrow> 'n js_object list \<Rightarrow> 'n js_object list" where
  "updateScene sceneId updates scenes =
     (case findIndex (has_id sceneId) scenes of
        Some index \<Rightarrow> scenes[index := (scenes ! index) ++ updates]
      | None \<Rightarrow> scenes)"

text \<open>
  \<^verbatim>\<open>
  function updateTask(taskId: string, updates: Partial<Task>) {
    const index = tasks.value.findIndex(t => t.id === taskId)
    if (index !== -1) {
      tasks.value[index] = { ...tasks.value[index], ...updates }
    } else {
      tasks.value.push(updates as Task)
    }
  }
  \<close>
\<close>

definition updateTask ::
  "'n jsval \<Rightarrow> 'n js_object \<Rightarrow> 'n js_object list \<Rightarrow> 'n js_object list" where
  "updateTask taskId updates tasks =
     (case findIndex (has_id taskId) tasks of
        Some index \<Rightarrow> tasks[index := (tasks ! index) ++ updates]
      | None \<Rightarrow> tasks @ [updates])"

text \<open>
  The record that \<^verbatim>\<open>updateTask(taskId, ...)\<close> addresses, read back: the status of the
  first task whose \<^verbatim>\<open>id\<close> is \<^verbatim>\<open>taskId\<close>.
\<close>

definition recorded_status :: "'n jsval \<Rightarrow> 'n js_object list \<Rightarrow> 'n jsval option" where
  "recorded_status taskId tasks =
     (case findIndex (has_id taskId) tasks of
        None \<Rightarrow> None
      | Some index \<Rightarrow> Some (prop_of (tasks ! index) ''status''))"

section \<open>Backoff policy\<close>

definition MAX_RECONNECT_ATTEMPTS :: nat where "MAX_RECONNECT_ATTEMPTS = 5"
definition BASE_RECONNECT_DELAY :: nat where "BASE_RECONNECT_DELAY = 1000"
definition MAX_RECONNECT_DELAY :: nat where "MAX_RECONNECT_DELAY = 30000"
definition HEARTBEAT_INTERVAL :: nat where "HEARTBEAT_INTERVAL = 30000"

text \<open>
  \<^verbatim>\<open>
  function getReconnectDelay(): number {
    const delay = BASE_RECONNECT_DELAY * Math.pow(2, reconnectAttempts.value)
    return Math.min(delay, MAX_RECONNECT_DELAY)
  }
  \<close>
  The arithmetic is on doubles. The operands that occur are exact: \<open>2 ^ n\<close> is a double
  for \<open>n \<le> 1023\<close> and \<^verbatim>\<open>Math.pow(2, n)\<close> is \<^verbatim>\<open>Infinity\<close> above; \<open>1000 * 2 ^ n\<close> is
  \<open>125 * 2 ^ (n + 3)\<close>, a double as long as it is below \<open>2 ^ 1024\<close>, and the product
  overflows to \<^verbatim>\<open>Infinity\<close> from there on. So a non-negative double is modelled as
  a natural number or \<^verbatim>\<open>Infinity\<close>, and no rounding takes place. \<open>times_number\<close> is
  the product for a positive left operand, which \<^verbatim>\<open>BASE_RECONNECT_DELAY\<close> is; the
  attempt count is a natural number, since the program only sets it to 0 and
  increments it.
\<close>

datatype number = Finite nat | PosInfinity

definition Math_pow2 :: "nat \<Rightarrow> number" where
  "Math_pow2 n = (if n \<le> 1023 then Finite (2 ^ n) else PosInfinity)"

fun times_number :: "nat \<Rightarrow> number \<Rightarrow> number" where
  "times_number a (Finite b) = (if a * b < 2 ^ 1024 then Finite (a * b) else PosInfinity)"
| "times_number a PosInfinity = PosInfinity"

fun Math_min :: "number \<Rightarrow> nat \<Rightarrow> nat" where
  "Math_min (Finite a) b = min a b"
| "Math_min PosInfinity b = b"

definition getReconnectDelay :: "nat \<Rightarrow> nat" where
  "getReconnectDelay attempts =
     (let delay = times_number BASE_RECONNECT_DELAY (Math_pow2 attempts)
      in Math_min delay MAX_RECONNECT_DELAY)"

section \<open>State of the synchronization client\<close>

datatype readyState = CONNECTING | OPEN | CLOSING | CLOSED

text \<open>
  The texts assigned to \<^verbatim>\<open>error.value\<close>: \<open>NotLoggedIn\<close> in \<^verbatim>\<open>connect\<close> without a
  token, \<open>ConnectFailedRefresh\<close> in \<^verbatim>\<open>ws.onclose\<close> once the attempts are used up,
  \<open>ConnectionError\<close> in \<^verbatim>\<open>ws.onerror\<close>, \<open>ConnectFailed\<close> in the \<^verbatim>\<open>catch\<close> of
  \<^verbatim>\<open>connect\<close>.
\<close>

datatype error_text = NotLoggedIn | ConnectFailedRefresh | ConnectionError | ConnectFailed

datatype exn = SyntaxError | TypeError | CallbackError

text \<open>
  A callback of the caller either returns or throws. It is taken to be an observer: it
  does not call back into the client and does not write to the store.
\<close>

datatype outcome = Returns | Throws

text \<open>
  What the client asks of the browser, in the order of the calls. A socket is named by
  its position in the order of creation, a timer by its handle.
\<close>

datatype effect =
    NewWebSocket nat
  | WsSend nat
  | WsCloseCall nat "nat option"
  | SetTimeout nat nat
  | ClearTimeout nat
  | SetInterval nat nat
  | ClearInterval nat
  | ConsoleLog
  | ConsoleError
  | ElMessageError
  | Uncaught exn

text \<open>
  \<^verbatim>\<open>JSON.parse\<close> belongs to the runtime and is a parameter: \<open>None\<close> is the
  \<^verbatim>\<open>SyntaxError\<close> it throws on a malformed text. The other fields are the
  \<^verbatim>\<open>WebSocketOptions\<close>; \<open>None\<close> is a callback that was not supplied.
\<close>

record 'n config =
  JSON_parse :: "string \<Rightarrow> 'n jsval option"
  onOpen :: "outcome option"
  onClose :: "outcome option"
  onMessage :: "('n jsval \<Rightarrow> outcome) option"
  onError :: "outcome option"

text \<open>
  The refs and variables of \<^verbatim>\<open>useWebSocket\<close>, the two lists of the project store
  that it writes, and the part of the browser it talks to: the ready state of every
  socket created so far, the pending one-shot timers with their delays, the running
  interval timers, the next timer handle (handles are positive, hence truthy), the
  token held by \<^verbatim>\<open>storage\<close>, and whether \<^verbatim>\<open>new WebSocket(url)\<close> throws.
\<close>

record 'n client =
  socket :: "nat option"
  connected :: bool
  connecting :: bool
  lastMessage :: "'n jsval option"
  reconnectAttempts :: nat
  error :: "error_text option"
  heartbeatTimer :: "nat option"
  reconnectTimer :: "nat option"
  tasks :: "'n js_object list"
  scenes :: "'n js_object list"
  socks :: "readyState list"
  timeouts :: "(nat \<times> nat) list"
  intervals :: "nat list"
  next_handle :: nat
  token :: "string option"
  ws_throws :: bool
  effects :: "effect list"

definition emit :: "effect \<Rightarrow> 'n client \<Rightarrow> 'n client" where
  "emit e st = st\<lparr>effects := effects st @ [e]\<rparr>"

definition throws :: "outcome option \<Rightarrow> bool" where
  "throws cb = (cb = Some Throws)"

definition throws_on :: "('a \<Rightarrow> outcome) option \<Rightarrow> 'a \<Rightarrow> bool" where
  "throws_on cb x = (case cb of None \<Rightarrow> False | Some f \<Rightarrow> f x = Throws)"

text \<open>\<^verbatim>\<open>socket.value?.readyState === WebSocket.OPEN\<close>\<close>

definition socket_open :: "'n client \<Rightarrow> bool" where
  "socket_open st =
     (case socket st of
        None \<Rightarrow> False
      | Some i \<Rightarrow> i < length (socks st) \<and> socks st ! i = OPEN)"

text \<open>
  \<^verbatim>\<open>ws.close(code?)\<close> on socket \<open>i\<close>: a socket that is connecting or open starts
  closing, on any other the call does nothing.
\<close>

definition ws_close :: "nat \<Rightarrow> nat option \<Rightarrow> 'n client \<Rightarrow> 'n client" where
  "ws_close i code st =
     (let st1 = emit (WsCloseCall i code) st
      in if i < length (socks st1) \<and> (socks st1 ! i = CONNECTING \<or> socks st1 ! i = OPEN)
         then st1\<lparr>socks := (socks st1)[i := CLOSING]\<rparr>
         else st1)"

section \<open>Timers\<close>

text \<open>
  \<^verbatim>\<open>
  function stopHeartbeat() {
    if (heartbeatTimer) { clearInterval(heartbeatTimer); heartbeatTimer = null }
  }
  function startHeartbeat() {
    stopHeartbeat()
    heartbeatTimer = setInterval(() => { ... }, HEARTBEAT_INTERVAL)
  }
  function cancelReconnect() {
    if (reconnectTimer) { clearTimeout(reconnectTimer); reconnectTimer = null }
  }
  \<close>
\<close>

definition stopHeartbeat :: "'n client \<Rightarrow> 'n client" where
  "stopHeartbeat st =
     (case heartbeatTimer st of
        None \<Rightarrow> st
      | Some h \<Rightarrow>
          (emit (ClearInterval h) st)
            \<lparr>intervals := removeAll h (intervals st), heartbeatTimer := None\<rparr>)"

definition startHeartbeat :: "'n client \<Rightarrow> 'n client" where
  "startHeartbeat st =
     (let st1 = stopHeartbeat st; h = next_handle st1
      in (emit (SetInterval h HEARTBEAT_INTERVAL) st1)
           \<lparr>intervals := intervals st1 @ [h], next_handle := Suc h,
            heartbeatTimer := Some h\<rparr>)"

definition cancelReconnect :: "'n client \<Rightarrow> 'n client" where
  "cancelReconnect st =
     (case reconnectTimer st of
        None \<Rightarrow> st
      | Some h \<Rightarrow>
          (emit (ClearTimeout h) st)
            \<lparr>timeouts := filter (\<lambda>t. fst t \<noteq> h) (timeouts st), reconnectTimer := None\<rparr>)"

section \<open>Event dispatcher\<close>

text \<open>
  The object literal passed to \<^verbatim>\<open>updateTask\<close> in \<^verbatim>\<open>handleMessage\<close>: it has all
  six properties whatever the message holds, a missing field giving \<^verbatim>\<open>undefined\<close>.
\<close>

definition task_updates :: "'n jsval \<Rightarrow> 'n js_object" where
  "task_updates message =
     [''id'' \<mapsto> field message ''task_id'',
      ''type'' \<mapsto> field message ''type'',
      ''status'' \<mapsto> field message ''status'',
      ''progress'' \<mapsto> field message ''progress'',
      ''progress_message'' \<mapsto> field message ''message'',
      ''error_message'' \<mapsto> field message ''error'']"

text \<open>
  \<^verbatim>\<open>
  function handleMessage(message: TaskProgressMessage) {
    lastMessage.value = message
    onMessage?.(message)
    projectStore.updateTask(message.task_id, { id: message.task_id, ... })
    if (message.status === 'completed' && message.result) {
      const result = message.result
      if (message.type === 'image' && result.scene_id) {
        projectStore.updateScene(result.scene_id as string, {
          image_url: result.image_url as string, status: 'completed' })
      }
      if (message.type === 'video' && result.scene_id) {
        projectStore.updateScene(result.scene_id as string, {
          video_url: result.video_url as string, status: 'completed' })
      }
    }
    if (message.status === 'failed' && message.result?.scene_id) {
      projectStore.updateScene(message.result.scene_id as string, { status: 'failed' })
    }
  }
  \<close>
  The result is the exception that leaves the function, if any, and the state at that
  point.
\<close>

definition route_completed :: "('n::zero) jsval \<Rightarrow> 'n client \<Rightarrow> 'n client" where
  "route_completed message st =
     (if strict_eq (field message ''status'') (JStr ''completed'')
         \<and> truthy (field message ''result'')
      then
        let result = field message ''result'';
            st1 = (if strict_eq (field message ''type'') (JStr ''image'')
                      \<and> truthy (field result ''scene_id'')
                   then st\<lparr>scenes := updateScene (field result ''scene_id'')
                          [''image_url'' \<mapsto> field result ''image_url'',
                           ''status'' \<mapsto> JStr ''completed''] (scenes st)\<rparr>
                   else st)
        in if strict_eq (field message ''type'') (JStr ''video'')
              \<and> truthy (field result ''scene_id'')
           then st1\<lparr>scenes := updateScene (field result ''scene_id'')
                  [''video_url'' \<mapsto> field result ''video_url'',
                   ''status'' \<mapsto> JStr ''completed''] (scenes st1)\<rparr>
           else st1
      else st)"

definition route_failed :: "('n::zero) jsval \<Rightarrow> 'n client \<Rightarrow> 'n client" where
  "route_failed message st =
     (if strict_eq (field message ''status'') (JStr ''failed'')
         \<and> truthy (opt_field (field message ''result'') ''scene_id'')
      then st\<lparr>scenes := updateScene (opt_field (field message ''result'') ''scene_id'')
             [''status'' \<mapsto> JStr ''failed''] (scenes st)\<rparr>
      else st)"

definition handleMessage ::
  "'n config \<Rightarrow> ('n::zero) jsval \<Rightarrow> 'n client \<Rightarrow> exn option \<times> 'n client" where
  "handleMessage cfg message st =
     (let st1 = st\<lparr>lastMessage := Some message\<rparr>
      in if throws_on (onMessage cfg) message then (Some CallbackError, st1)
         else if nullish message then (Some TypeError, st1)
         else
           let st2 = st1\<lparr>tasks := updateTask (field message ''task_id'')
                                     (task_updates message) (tasks st1)\<rparr>
           in (None, route_failed message (route_completed message st2)))"

text \<open>
  \<^verbatim>\<open>
  ws.onmessage = (event) => {
    try {
      const message: TaskProgressMessage = JSON.parse(event.data)
      if ((message as unknown as { type: string }).type === 'pong') { return }
      handleMessage(message)
    } catch (e) {
      console.error('[WebSocket] Failed to parse message:', e)
    }
  }
  \<close>
  \<open>onmessage_try\<close> is the \<^verbatim>\<open>try\<close> block, \<open>ws_onmessage\<close> the handler with its
  \<^verbatim>\<open>catch\<close>.
\<close>

definition onmessage_try ::
  "'n config \<Rightarrow> string \<Rightarrow> ('n::zero) client \<Rightarrow> exn option \<times> 'n client" where
  "onmessage_try cfg raw st =
     (case JSON_parse cfg raw of
        None \<Rightarrow> (Some SyntaxError, st)
      | Some message \<Rightarrow>
          if nullish message then (Some TypeError, st)
          else if strict_eq (field message ''type'') (JStr ''pong'') then (None, st)
          else handleMessage cfg message st)"

definition ws_onmessage ::
  "'n config \<Rightarrow> string \<Rightarrow> ('n::zero) client \<Rightarrow> exn option \<times> 'n client" where
  "ws_onmessage cfg raw st =
     (case onmessage_try cfg raw st of
        (Some e, st1) \<Rightarrow> (None, emit ConsoleError st1)
      | (None, st1) \<Rightarrow> (None, st1))"

section \<open>Connection and reconnection\<close>

text \<open>
  \<^verbatim>\<open>
  function connect() {
    const token = storage.getToken()
    if (!token) { error.value = ...; return }
    if (socket.value?.readyState === WebSocket.OPEN) { return }
    if (connecting.value) { return }
    connecting.value = true
    error.value = null
    try {
      const wsUrl = getWebSocketUrl()
      const ws = new WebSocket(wsUrl)
      ws.onopen = ...; ws.onmessage = ...; ws.onclose = ...; ws.onerror = ...
      socket.value = ws
    } catch (e) {
      connecting.value = false
      error.value = ...
      console.error('[WebSocket] Connection failed:', e)
    }
  }
  \<close>
  \<^verbatim>\<open>!token\<close> holds for \<^verbatim>\<open>null\<close> and for the empty string.
\<close>

definition no_token :: "string option \<Rightarrow> bool" where
  "no_token t = (case t of None \<Rightarrow> True | Some s \<Rightarrow> s = [])"

definition connect :: "'n client \<Rightarrow> 'n client" where
  "connect st =
     (if no_token (token st) then st\<lparr>error := Some NotLoggedIn\<rparr>
      else if socket_open st then st
      else if connecting st then st
      else
        let st1 = st\<lparr>connecting := True, error := None\<rparr>
        in if ws_throws st1
           then emit ConsoleError (st1\<lparr>connecting := False, error := Some ConnectFailed\<rparr>)
           else
             let i = length (socks st1)
             in (emit (NewWebSocket i) st1)\<lparr>socks := socks st1 @ [CONNECTING], socket := Some i\<rparr>)"

text \<open>
  \<^verbatim>\<open>
  function scheduleReconnect() {
    cancelReconnect()
    const delay = getReconnectDelay()
    reconnectAttempts.value++
    console.log(...)
    reconnectTimer = setTimeout(() => { connect() }, delay)
  }
  \<close>
\<close>

definition scheduleReconnect :: "'n client \<Rightarrow> 'n client" where
  "scheduleReconnect st =
     (let st1 = cancelReconnect st;
          delay = getReconnectDelay (reconnectAttempts st1);
          st2 = emit ConsoleLog (st1\<lparr>reconnectAttempts := Suc (reconnectAttempts st1)\<rparr>);
          h = next_handle st2
      in (emit (SetTimeout h delay) st2)
           \<lparr>timeouts := timeouts st2 @ [(h, delay)], next_handle := Suc h,
            reconnectTimer := Some h\<rparr>)"

text \<open>
  \<^verbatim>\<open>
  ws.onopen = () => {
    connected.value = true
    connecting.value = false
    reconnectAttempts.value = 0
    error.value = null
    console.log('[WebSocket] Connected')
    startHeartbeat()
    onOpen?.()
  }
  \<close>
\<close>

definition ws_onopen :: "'n config \<Rightarrow> 'n client \<Rightarrow> exn option \<times> 'n client" where
  "ws_onopen cfg st =
     (let st1 = st\<lparr>connected := True, connecting := False, reconnectAttempts := 0,
                   error := None\<rparr>;
          st2 = startHeartbeat (emit ConsoleLog st1)
      in (if throws (onOpen cfg) then Some CallbackError else None, st2))"

text \<open>
  \<^verbatim>\<open>
  ws.onclose = (event) => {
    connected.value = false
    connecting.value = false
    stopHeartbeat()
    console.log('[WebSocket] Disconnected:', event.code, event.reason)
    onClose?.()
    if (!event.wasClean && reconnectAttempts.value < MAX_RECONNECT_ATTEMPTS) {
      scheduleReconnect()
    } else if (reconnectAttempts.value >= MAX_RECONNECT_ATTEMPTS) {
      error.value = ...
      ElMessage.error(...)
    }
  }
  \<close>
\<close>

definition ws_onclose :: "'n config \<Rightarrow> bool \<Rightarrow> 'n client \<Rightarrow> exn option \<times> 'n client" where
  "ws_onclose cfg wasClean st =
     (let st1 = stopHeartbeat (st\<lparr>connected := False, connecting := False\<rparr>);
          st2 = emit ConsoleLog st1
      in if throws (onClose cfg) then (Some CallbackError, st2)
         else if \<not> wasClean \<and> reconnectAttempts st2 < MAX_RECONNECT_ATTEMPTS
           then (None, scheduleReconnect st2)
         else if reconnectAttempts st2 \<ge> MAX_RECONNECT_ATTEMPTS
           then (None, emit ElMessageError (st2\<lparr>error := Some ConnectFailedRefresh\<rparr>))
         else (None, st2))"

text \<open>
  \<^verbatim>\<open>
  ws.onerror = (event) => {
    console.error('[WebSocket] Error:', event)
    error.value = ...
    onError?.(event)
    ws.close()
  }
  \<close>
  \<open>i\<close> is the socket the handler belongs to.
\<close>

definition ws_onerror :: "'n config \<Rightarrow> nat \<Rightarrow> 'n client \<Rightarrow> exn option \<times> 'n client" where
  "ws_onerror cfg i st =
     (let st1 = (emit ConsoleError st)\<lparr>error := Some ConnectionError\<rparr>
      in if throws (onError cfg) then (Some CallbackError, st1)
         else (None, ws_close i None st1))"

text \<open>
  \<^verbatim>\<open>
  function disconnect() {
    cancelReconnect()
    stopHeartbeat()
    if (socket.value) {
      socket.value.close(1000, 'Client disconnect')
      socket.value = null
    }
    connected.value = false
    connecting.value = false
    reconnectAttempts.value = 0
  }
  \<close>
\<close>

definition disconnect :: "'n client \<Rightarrow> 'n client" where
  "disconnect st =
     (let st1 = stopHeartbeat (cancelReconnect st);
          st2 = (case socket st1 of
                   None \<Rightarrow> st1
                 | Some i \<Rightarrow> (ws_close i (Some 1000) st1)\<lparr>socket := None\<rparr>)
      in st2\<lparr>connected := False, connecting := False, reconnectAttempts := 0\<rparr>)"

text \<open>
  \<^verbatim>\<open>
  function send(data: unknown) {
    if (socket.value?.readyState === WebSocket.OPEN) {
      socket.value.send(JSON.stringify(data)); return true
    }
    return false
  }
  function resetReconnect() {
    reconnectAttempts.value = 0
    error.value = null
  }
  \<close>
  The heartbeat callback sends its ping under the same test as \<^verbatim>\<open>send\<close>. The
  payload is not modelled, and \<^verbatim>\<open>JSON.stringify\<close> is taken to return.
\<close>

definition send :: "'n client \<Rightarrow> 'n client" where
  "send st =
     (case socket st of
        None \<Rightarrow> st
      | Some i \<Rightarrow> if socket_open st then emit (WsSend i) st else st)"

definition resetReconnect :: "'n client \<Rightarrow> 'n client" where
  "resetReconnect st = st\<lparr>reconnectAttempts := 0, error := None\<rparr>"

text \<open>
  \<^verbatim>\<open>
  useEventListener(document, 'visibilitychange', () => {
    if (document.visibilityState === 'visible') {
      if (!connected.value && !connecting.value) {
        resetReconnect()
        connect()
      }
    }
  })
  \<close>
\<close>

definition on_visibilitychange :: "bool \<Rightarrow> 'n client \<Rightarrow> 'n client" where
  "on_visibilitychange visible st =
     (if visible then
        if \<not> connected st \<and> \<not> connecting st then connect (resetReconnect st) else st
      else st)"

section \<open>The event loop\<close>

text \<open>
  One event of the single-threaded runtime: a call of the public interface
  (\<^verbatim>\<open>onMounted\<close>, \<^verbatim>\<open>onUnmounted\<close> and the \<^verbatim>\<open>watch\<close> on the project id call
  \<^verbatim>\<open>connect\<close> and \<^verbatim>\<open>disconnect\<close>), an event of a socket, a timer that fires, a
  change of the page's visibility, or a change of the stored token. The browser fires
  \<^verbatim>\<open>open\<close> only on a connecting socket, \<^verbatim>\<open>message\<close> only on an open one and
  \<^verbatim>\<open>close\<close> once per socket; a timer fires only while it is pending. An event that
  cannot occur leaves the state as it is. An exception that leaves a handler is
  reported by the runtime.
\<close>

datatype event =
    Connect
  | Disconnect
  | Send
  | ResetReconnect
  | VisibilityChange bool
  | SockOpen nat
  | SockMessage nat string
  | SockError nat
  | SockClose nat bool
  | TimeoutFire nat
  | IntervalTick nat
  | SetToken "string option"

definition finish :: "exn option \<times> 'n client \<Rightarrow> 'n client" where
  "finish r = (case r of (None, st) \<Rightarrow> st | (Some e, st) \<Rightarrow> emit (Uncaught e) st)"

fun step :: "'n config \<Rightarrow> event \<Rightarrow> ('n::zero) client \<Rightarrow> 'n client" where
  "step cfg Connect st = connect st"
| "step cfg Disconnect st = disconnect st"
| "step cfg Send st = send st"
| "step cfg ResetReconnect st = resetReconnect st"
| "step cfg (VisibilityChange visible) st = on_visibilitychange visible st"
| "step cfg (SockOpen i) st =
     (if i < length (socks st) \<and> socks st ! i = CONNECTING
      then finish (ws_onopen cfg (st\<lparr>socks := (socks st)[i := OPEN]\<rparr>))
      else st)"
| "step cfg (SockMessage i raw) st =
     (if i < length (socks st) \<and> socks st ! i = OPEN
      then finish (ws_onmessage cfg raw st)
      else st)"
| "step cfg (SockError i) st =
     (if i < length (socks st) \<and> socks st ! i \<noteq> CLOSED
      then finish (ws_onerror cfg i st)
      else st)"
| "step cfg (SockClose i wasClean) st =
     (if i < length (socks st) \<and> socks st ! i \<noteq> CLOSED
      then finish (ws_onclose cfg wasClean (st\<lparr>socks := (socks st)[i := CLOSED]\<rparr>))
      else st)"
| "step cfg (TimeoutFire h) st =
     (if h \<in> fst ` set (timeouts st)
      then connect (st\<lparr>timeouts := filter (\<lambda>t. fst t \<noteq> h) (timeouts st)\<rparr>)
      else st)"
| "step cfg (IntervalTick h) st = (if h \<in> set (intervals st) then send st else st)"
| "step cfg (SetToken t) st = st\<lparr>token := t\<rparr>"

fun run :: "'n config \<Rightarrow> event list \<Rightarrow> ('n::zero) client \<Rightarrow> 'n client" where
  "run cfg [] st = st"
| "run cfg (ev # evs) st = run cfg evs (step cfg ev st)"

text \<open>
  The client as \<^verbatim>\<open>useWebSocket\<close> creates it, over a store \<open>ts\<close>, \<open>ss\<close>, a token, and
  a page for which the constructor of sockets throws or not.
\<close>

definition init ::
  "'n js_object list \<Rightarrow> 'n js_object list \<Rightarrow> string option \<Rightarrow> bool \<Rightarrow> 'n client" where
  "init ts ss tok wt =
     \<lparr>socket = None, connected = False, connecting = False, lastMessage = None,
      reconnectAttempts = 0, error = None, heartbeatTimer = None, reconnectTimer = None,
      tasks = ts, scenes = ss, socks = [], timeouts = [], intervals = [],
      next_handle = 1, token = tok, ws_throws = wt, effects = []\<rparr>"

section \<open>Events that touch the attempt counter\<close>

text \<open>
  The events whose handler executes \<^verbatim>\<open>reconnectAttempts.value = 0\<close>: an
  \<^verbatim>\<open>open\<close> that the browser can fire, a change to visible while neither connected nor
  connecting, \<^verbatim>\<open>disconnect()\<close> and \<^verbatim>\<open>resetReconnect()\<close>. And the events that are an
  abnormal close: a \<^verbatim>\<open>close\<close> that the browser can fire with \<^verbatim>\<open>wasClean\<close> false.
\<close>

fun resets_attempts :: "event \<Rightarrow> 'n client \<Rightarrow> bool" where
  "resets_attempts (SockOpen i) st = (i < length (socks st) \<and> socks st ! i = CONNECTING)"
| "resets_attempts (VisibilityChange visible) st =
     (visible \<and> \<not> connected st \<and> \<not> connecting st)"
| "resets_attempts Disconnect st = True"
| "resets_attempts ResetReconnect st = True"
| "resets_attempts ev st = False"

fun abnormal_close :: "event \<Rightarrow> 'n client \<Rightarrow> bool" where
  "abnormal_close (SockClose i wasClean) st =
     (\<not> wasClean \<and> i < length (socks st) \<and> socks st ! i \<noteq> CLOSED)"
| "abnormal_close ev st = False"

section \<open>Timers and their handles\<close>

text \<open>
  Every pending one-shot timer is the one whose handle \<^verbatim>\<open>reconnectTimer\<close> holds, and
  every running interval timer is the one whose handle \<^verbatim>\<open>heartbeatTimer\<close> holds.
\<close>

definition timers_tracked :: "'n client \<Rightarrow> bool" where
  "timers_tracked st \<longleftrightarrow>
     (\<forall>t\<in>set (timeouts st). reconnectTimer st = Some (fst t))
     \<and> (\<forall>h\<in>set (intervals st). heartbeatTimer st = Some h)"

text \<open>
  The events that are no external reset of the reconnection controller: events of the
  sockets other than \<^verbatim>\<open>open\<close>, timers, \<^verbatim>\<open>send\<close> and a change of the token.
\<close>

fun no_reset :: "event \<Rightarrow> bool" where
  "no_reset (SockClose i wasClean) = True"
| "no_reset (SockMessage i raw) = True"
| "no_reset (SockError i) = True"
| "no_reset (TimeoutFire h) = True"
| "no_reset (IntervalTick h) = True"
| "no_reset Send = True"
| "no_reset (SetToken t) = True"
| "no_reset ev = False"

text \<open>
  Along a run: no event resets the attempt counter, and the number of abnormal closes.
\<close>

fun reset_free :: "'n config \<Rightarrow> event list \<Rightarrow> ('n::zero) client \<Rightarrow> bool" where
  "reset_free cfg [] st = True"
| "reset_free cfg (ev # evs) st =
     (\<not> resets_attempts ev st \<and> reset_free cfg evs (step cfg ev st))"

fun count_abnormal_closes :: "'n config \<Rightarrow> event list \<Rightarrow> ('n::zero) client \<Rightarrow> nat" where
  "count_abnormal_closes cfg [] st = 0"
| "count_abnormal_closes cfg (ev # evs) st =
     (if abnormal_close ev st then 1 else 0) + count_abnormal_closes cfg evs (step cfg ev st)"

section \<open>Sample inputs\<close>

text \<open>
  Concrete inputs on which the theorems below are run. \<open>sample_parse\<close> is the graph of
  \<^verbatim>\<open>JSON.parse\<close> on three texts; it rejects every other text, among them the
  malformed \<^verbatim>\<open>{oops\<close>. The theorems themselves hold for every parser.
\<close>

definition fresh_client :: "int client" where
  "fresh_client = init [] [] (Some ''tok'') False"

text \<open>
  The retry loop from a fresh client: \<^verbatim>\<open>connect()\<close>, then five times an abnormal close,
  each but the last followed by its reconnect timer firing.
\<close>

definition five_closes :: "event list" where
  "five_closes =
     [Connect, SockClose 0 False, TimeoutFire 1, SockClose 1 False, TimeoutFire 2,
      SockClose 2 False, TimeoutFire 3, SockClose 3 False, TimeoutFire 4, SockClose 4 False]"

definition six_closes :: "event list" where
  "six_closes = five_closes @ [TimeoutFire 5, SockClose 5 False]"

definition two_closes :: "event list" where
  "two_closes = [Connect, SockClose 0 False, TimeoutFire 1, SockClose 1 False]"

definition sample_parse :: "string \<Rightarrow> int jsval option" where
  "sample_parse s =
     (if s = ''null'' then Some JNull
      else if s = ''{}'' then Some (JObj [])
      else if s = ''5'' then Some (JNum 5)
      else None)"

definition sample_cfg :: "int config" where
  "sample_cfg = \<lparr>JSON_parse = sample_parse, onOpen = None, onClose = None,
                  onMessage = None, onError = None\<rparr>"

definition msg_completed :: "int jsval" where
  "msg_completed = JObj [(''task_id'', JStr ''t1''), (''type'', JStr ''image''),
     (''status'', JStr ''completed''), (''progress'', JNum 100),
     (''result'', JObj [(''scene_id'', JStr ''s1''), (''image_url'', JStr ''x'')])]"

definition msg_running :: "int jsval" where
  "msg_running = JObj [(''task_id'', JStr ''t1''), (''type'', JStr ''image''),
     (''status'', JStr ''running''), (''progress'', JNum 40)]"

definition sample_scene :: "int js_object" where
  "sample_scene = [''id'' \<mapsto> JStr ''s1'', ''status'' \<mapsto> JStr ''generating'']"

definition sample_client :: "int client" where
  "sample_client = init [] [sample_scene] (Some ''tok'') False"

definition sample_task :: "int js_object" where
  "sample_task = [''id'' \<mapsto> JStr ''t1'', ''status'' \<mapsto> JStr ''running'',
                  ''created_at'' \<mapsto> JStr ''d'']"

definition sample_updates :: "int js_object" where
  "sample_updates = [''status'' \<mapsto> JStr ''failed'']"

section \<open>Properties of the store\<close>

lemma findIndex_Some_iff:
  "findIndex p xs = Some i \<longleftrightarrow> i < length xs \<and> p (xs ! i) \<and> (\<forall>j<i. \<not> p (xs ! j))"
proof (induction xs arbitrary: i)
  case Nil
  then show ?case by simp
next
  case (Cons x xs)
  show ?case
  proof (cases "p x")
    case True
    then show ?thesis by (cases i) auto
  next
    case False
    show ?thesis
    proof (cases i)
      case 0
      with False show ?thesis by simp
    next
      case (Suc k)
      have "(\<forall>j<Suc k. \<not> p ((x # xs) ! j)) \<longleftrightarrow> (\<forall>j<k. \<not> p (xs ! j))"
        using False by (auto simp: less_Suc_eq_0_disj)
      with False Suc Cons.IH [of k] show ?thesis by auto
    qed
  qed
qed

lemma findIndex_None_iff: "findIndex p xs = None \<longleftrightarrow> (\<forall>x\<in>set xs. \<not> p x)"
  by (induction xs) auto

lemma findIndex_update_same:
  assumes "findIndex p xs = Some i" and "p y"
  shows "findIndex p (xs[i := y]) = Some i"
proof -
  from assms(1) have i: "i < length xs" and before: "\<forall>j<i. \<not> p (xs ! j)"
    by (simp_all add: findIndex_Some_iff)
  have "\<forall>j<i. \<not> p (xs[i := y] ! j)"
    using before by simp
  with i assms(2) show ?thesis
    by (simp add: findIndex_Some_iff)
qed

lemma findIndex_append_new:
  assumes "findIndex p xs = None" and "p y"
  shows "findIndex p (xs @ [y]) = Some (length xs)"
proof -
  from assms(1) have "\<forall>j<length xs. \<not> p (xs ! j)"
    by (simp add: findIndex_None_iff)
  then have "\<forall>j<length xs. \<not> p ((xs @ [y]) ! j)"
    by (simp add: nth_append)
  with assms(2) show ?thesis
    by (simp add: findIndex_Some_iff)
qed

lemma merge_twice: "(t ++ u) ++ u = t ++ u" and merge_self: "u ++ u = u"
  by (rule ext, simp add: map_add_def split: option.split)+

lemma has_id_merge:
  assumes "u ''id'' = Some ident" and "strict_eq ident ident"
  shows "has_id ident (t ++ u)"
  using assms by (simp add: has_id_def prop_of_def map_add_def)

lemma has_id_merge_other:
  assumes "u ''id'' = None"
  shows "has_id ident (t ++ u) = has_id ident t"
  using assms by (simp add: has_id_def prop_of_def map_add_def)

lemma updateTask_found:
  assumes "findIndex (has_id ident) ts = Some i"
  shows "updateTask ident u ts = ts[i := ts ! i ++ u]"
  using assms by (simp add: updateTask_def)

lemma updateTask_new:
  assumes "findIndex (has_id ident) ts = None"
  shows "updateTask ident u ts = ts @ [u]"
  using assms by (simp add: updateTask_def)

lemma findIndex_updateTask:
  assumes "u ''id'' = Some ident" and "strict_eq ident ident"
  shows "findIndex (has_id ident) (updateTask ident u ts) =
           Some (case findIndex (has_id ident) ts of None \<Rightarrow> length ts | Some i \<Rightarrow> i)"
proof (cases "findIndex (has_id ident) ts")
  case None
  have "has_id ident u"
    using has_id_merge [of u ident Map.empty] assms by simp
  with None show ?thesis
    by (simp add: updateTask_new findIndex_append_new)
next
  case (Some i)
  have "has_id ident (ts ! i ++ u)"
    using has_id_merge [of u ident "ts ! i"] assms by simp
  with Some show ?thesis
    by (simp add: updateTask_found findIndex_update_same)
qed

lemma updateTask_idem:
  assumes "u ''id'' = Some ident" and "strict_eq ident ident"
  shows "updateTask ident u (updateTask ident u ts) = updateTask ident u ts"
proof (cases "findIndex (has_id ident) ts")
  case None
  then have "updateTask ident u ts = ts @ [u]" by (rule updateTask_new)
  moreover have "findIndex (has_id ident) (ts @ [u]) = Some (length ts)"
    using findIndex_updateTask [of u ident ts] assms None by (simp add: updateTask_new)
  ultimately show ?thesis
    by (simp add: updateTask_found merge_self)
next
  case (Some i)
  then have i: "i < length ts" by (simp add: findIndex_Some_iff)
  have "findIndex (has_id ident) (ts[i := ts ! i ++ u]) = Some i"
    using findIndex_updateTask [of u ident ts] assms Some by (simp add: updateTask_found)
  with Some i show ?thesis
    by (simp add: updateTask_found merge_twice)
qed

lemma updateScene_idem:
  assumes "u ''id'' = None"
  shows "updateScene ident u (updateScene ident u ss) = updateScene ident u ss"
proof (cases "findIndex (has_id ident) ss")
  case None
  then show ?thesis by (simp add: updateScene_def)
next
  case (Some i)
  then have i: "i < length ss" and "has_id ident (ss ! i)"
    by (simp_all add: findIndex_Some_iff)
  then have "has_id ident (ss ! i ++ u)"
    using has_id_merge_other [of u ident "ss ! i"] assms by simp
  with Some have "findIndex (has_id ident) (ss[i := ss ! i ++ u]) = Some i"
    using findIndex_update_same [of "has_id ident" ss i "ss ! i ++ u"] by simp
  with Some i show ?thesis
    by (simp add: updateScene_def merge_twice)
qed

section \<open>Backoff policy: the delay\<close>

lemma pow2_ge_32: "5 \<le> n \<Longrightarrow> (32::nat) \<le> 2 ^ n"
proof -
  assume "5 \<le> n"
  then have "(2::nat) ^ 5 \<le> 2 ^ n" by (rule power_increasing) simp
  then show ?thesis by simp
qed

lemma getReconnectDelay_eq: "getReconnectDelay n = min (1000 * 2 ^ n) 30000"
proof (cases "n \<le> 1023 \<and> (1000::nat) * 2 ^ n < 2 ^ 1024")
  case True
  then show ?thesis
    by (simp add: getReconnectDelay_def Math_pow2_def BASE_RECONNECT_DELAY_def
        MAX_RECONNECT_DELAY_def)
next
  case False
  have "5 \<le> n"
  proof (rule ccontr)
    assume "\<not> 5 \<le> n"
    then have n4: "n \<le> 4" by simp
    then have "n \<le> 1023" by simp
    moreover have "(2::nat) ^ n \<le> 2 ^ 4"
      using n4 by (intro power_increasing) simp_all
    moreover have "(1000::nat) * 2 ^ 4 < 2 ^ 1024"
    proof -
      have "(1000::nat) * 2 ^ 4 < 2 ^ 15" by simp
      also have "(2::nat) ^ 15 \<le> 2 ^ 1024" by (rule power_increasing) simp_all
      finally show ?thesis .
    qed
    ultimately have "n \<le> 1023 \<and> (1000::nat) * 2 ^ n < 2 ^ 1024"
      by (meson le_less_trans mult_le_mono2)
    with False show False by simp
  qed
  then have big: "(30000::nat) \<le> 1000 * 2 ^ n"
    using pow2_ge_32 [of n] by simp
  have "getReconnectDelay n = 30000"
    using False
    by (auto simp: getReconnectDelay_def Math_pow2_def BASE_RECONNECT_DELAY_def
        MAX_RECONNECT_DELAY_def)
  with big show ?thesis by simp
qed

text \<open>
  Claim C3. For every attempt count \<open>n\<close> the reconnect delay is
  \<open>min (1000 * 2 ^ n) 30000\<close> milliseconds. It does not decrease when \<open>n\<close> grows, it is
  below the cap for \<open>n < 5\<close> and equal to 30000 from \<open>n = 5\<close> on, and where
  \<^verbatim>\<open>Math.pow(2, n)\<close> overflows to \<^verbatim>\<open>Infinity\<close> the result is still 30000.
\<close>

theorem backoff_policy:
  "getReconnectDelay n = min (1000 * 2 ^ n) 30000
   \<and> (n \<le> m \<longrightarrow> getReconnectDelay n \<le> getReconnectDelay m)
   \<and> (n < 5 \<longrightarrow> getReconnectDelay n = 1000 * 2 ^ n \<and> getReconnectDelay n < 30000)
   \<and> (5 \<le> n \<longrightarrow> getReconnectDelay n = 30000)
   \<and> (1023 < n \<longrightarrow> Math_pow2 n = PosInfinity \<and> getReconnectDelay n = 30000)"
proof -
  have mono: "n \<le> m \<longrightarrow> getReconnectDelay n \<le> getReconnectDelay m"
  proof
    assume "n \<le> m"
    then have "(2::nat) ^ n \<le> 2 ^ m" by (rule power_increasing) simp
    then show "getReconnectDelay n \<le> getReconnectDelay m"
      by (simp add: getReconnectDelay_eq min_le_iff_disj)
  qed
  have small: "n < 5 \<longrightarrow> getReconnectDelay n = 1000 * 2 ^ n \<and> getReconnectDelay n < 30000"
  proof
    assume "n < 5"
    then have "(2::nat) ^ n \<le> 2 ^ 4" by (intro power_increasing) simp_all
    then have "(1000::nat) * 2 ^ n \<le> 16000" by simp
    then show "getReconnectDelay n = 1000 * 2 ^ n \<and> getReconnectDelay n < 30000"
      by (simp add: getReconnectDelay_eq)
  qed
  have cap: "5 \<le> n \<longrightarrow> getReconnectDelay n = 30000"
    using pow2_ge_32 [of n] by (auto simp: getReconnectDelay_eq)
  have inf: "1023 < n \<longrightarrow> Math_pow2 n = PosInfinity \<and> getReconnectDelay n = 30000"
    using cap by (simp add: Math_pow2_def)
  from getReconnectDelay_eq mono small cap inf show ?thesis by blast
qed

theorem backoff_policy_witness:
  "getReconnectDelay 3 = 8000 \<and> getReconnectDelay 3 \<le> getReconnectDelay 4
   \<and> getReconnectDelay 7 = 30000 \<and> Math_pow2 2000 = PosInfinity
   \<and> getReconnectDelay 2000 = 30000"
  using backoff_policy [of 3 4] backoff_policy [of 7 7] backoff_policy [of 2000 2000]
  by simp

section \<open>Dispatcher: the task record follows the last event\<close>

lemma tasks_route [simp]:
  "tasks (route_completed message st) = tasks st"
  "tasks (route_failed message st) = tasks st"
  by (simp_all add: route_completed_def route_failed_def Let_def)

lemma field_JStr_not_nullish: "field message k = JStr s \<Longrightarrow> \<not> nullish message"
  by (cases message) simp_all

lemma task_updates_id: "task_updates message ''id'' = Some (field message ''task_id'')"
  and task_updates_status: "task_updates message ''status'' = Some (field message ''status'')"
  by (simp_all add: task_updates_def)

lemma tasks_handleMessage:
  assumes "\<not> throws_on (onMessage cfg) message" and "\<not> nullish message"
  shows "tasks (snd (handleMessage cfg message st)) =
           updateTask (field message ''task_id'') (task_updates message) (tasks st)"
  using assms by (simp add: handleMessage_def Let_def)

text \<open>
  Claim C1, as the code has it. \<^verbatim>\<open>updateTask\<close> merges the six properties of every
  event into the record, with no test of the status that is recorded. For every task
  id \<open>T\<close>, after an event for \<open>T\<close> has been handled the recorded status of \<open>T\<close> is
  the status of that event, whatever was recorded before: a terminal status is
  overwritten by a later non-terminal event.
\<close>

theorem status_last_event_wins:
  assumes "field message ''task_id'' = JStr T" and "\<not> throws_on (onMessage cfg) message"
  shows "recorded_status (JStr T) (tasks (snd (handleMessage cfg message st))) =
           Some (field message ''status'')"
proof -
  let ?u = "task_updates message" and ?ts = "tasks st"
  have nn: "\<not> nullish message"
    using assms(1) by (rule field_JStr_not_nullish)
  have ts': "tasks (snd (handleMessage cfg message st)) = updateTask (JStr T) ?u ?ts"
    using tasks_handleMessage [of cfg message st] assms nn by simp
  have uid: "?u ''id'' = Some (JStr T)"
    using assms(1) by (simp add: task_updates_id)
  have idx: "findIndex (has_id (JStr T)) (updateTask (JStr T) ?u ?ts) =
      Some (case findIndex (has_id (JStr T)) ?ts of None \<Rightarrow> length ?ts | Some i \<Rightarrow> i)"
    using findIndex_updateTask [of ?u "JStr T" ?ts] uid by simp
  show ?thesis
  proof (cases "findIndex (has_id (JStr T)) ?ts")
    case None
    with idx ts' show ?thesis
      by (simp add: recorded_status_def updateTask_new prop_of_def task_updates_status)
  next
    case (Some i)
    then have "i < length ?ts" by (simp add: findIndex_Some_iff)
    with Some idx ts' show ?thesis
      by (simp add: recorded_status_def updateTask_found prop_of_def task_updates_status)
  qed
qed

theorem status_last_event_wins_witness:
  "recorded_status (JStr ''t1'')
     (tasks (snd (handleMessage sample_cfg msg_running sample_client))) = Some (JStr ''running'')"
  using status_last_event_wins [of msg_running "''t1''" sample_cfg sample_client]
  by (simp add: msg_running_def sample_cfg_def throws_on_def)

text \<open>
  The claim as stated fails: a \<^verbatim>\<open>completed\<close> event for \<^verbatim>\<open>t1\<close> followed by a
  \<^verbatim>\<open>running\<close> event for \<^verbatim>\<open>t1\<close> leaves \<^verbatim>\<open>running\<close> recorded.
\<close>

theorem terminal_status_overwritten_counterexample:
  "recorded_status (JStr ''t1'')
     (tasks (snd (handleMessage sample_cfg msg_completed sample_client)))
     = Some (JStr ''completed'')
   \<and> recorded_status (JStr ''t1'')
     (tasks (snd (handleMessage sample_cfg msg_running
                (snd (handleMessage sample_cfg msg_completed sample_client)))))
     = Some (JStr ''running'')"
  by (simp add: handleMessage_def sample_cfg_def throws_on_def msg_completed_def
      msg_running_def sample_client_def init_def updateTask_def updateScene_def
      recorded_status_def has_id_def prop_of_def task_updates_def route_completed_def
      route_failed_def opt_field_def sample_scene_def Let_def)

section \<open>Store: update of a task and of a scene\<close>

text \<open>
  Claim C5, as the code has it. Both functions look for the first record whose
  \<^verbatim>\<open>id\<close> is the given one. When there is one, both merge the updates into it: a
  property of the updates replaces the stored one, the other properties stay, and no
  other record changes. When there is none, \<^verbatim>\<open>updateTask\<close> appends the updates as a
  new record and \<^verbatim>\<open>updateScene\<close> leaves the list as it is. Both are total: an
  unknown id never fails.
\<close>

theorem store_upsert_contract:
  "(if \<exists>t\<in>set ts. has_id ident t
    then \<exists>i<length ts. has_id ident (ts ! i) \<and> (\<forall>j<i. \<not> has_id ident (ts ! j))
           \<and> updateTask ident u ts = ts[i := ts ! i ++ u]
           \<and> updateScene ident u ts = ts[i := ts ! i ++ u]
           \<and> (\<forall>k. prop_of (updateTask ident u ts ! i) k =
                  (case u k of Some v \<Rightarrow> v | None \<Rightarrow> prop_of (ts ! i) k))
    else updateTask ident u ts = ts @ [u] \<and> updateScene ident u ts = ts)"
proof (cases "findIndex (has_id ident) ts")
  case None
  then have "\<not> (\<exists>t\<in>set ts. has_id ident t)"
    by (simp add: findIndex_None_iff)
  with None show ?thesis
    by (simp add: updateTask_def updateScene_def)
next
  case (Some i)
  then have i: "i < length ts" and hit: "has_id ident (ts ! i)"
    and first: "\<forall>j<i. \<not> has_id ident (ts ! j)"
    by (simp_all add: findIndex_Some_iff)
  from i hit have ex: "\<exists>t\<in>set ts. has_id ident t"
    using nth_mem by blast
  have merged: "\<forall>k. prop_of (updateTask ident u ts ! i) k =
                  (case u k of Some v \<Rightarrow> v | None \<Rightarrow> prop_of (ts ! i) k)"
    using Some i by (simp add: updateTask_def prop_of_def map_add_def split: option.split)
  from Some have "updateTask ident u ts = ts[i := ts ! i ++ u]"
    and "updateScene ident u ts = ts[i := ts ! i ++ u]"
    by (simp_all add: updateTask_def updateScene_def)
  with i hit first merged have
    "\<exists>i<length ts. has_id ident (ts ! i) \<and> (\<forall>j<i. \<not> has_id ident (ts ! j))
           \<and> updateTask ident u ts = ts[i := ts ! i ++ u]
           \<and> updateScene ident u ts = ts[i := ts ! i ++ u]
           \<and> (\<forall>k. prop_of (updateTask ident u ts ! i) k =
                  (case u k of Some v \<Rightarrow> v | None \<Rightarrow> prop_of (ts ! i) k))"
    by blast
  with ex show ?thesis by simp
qed

theorem store_upsert_contract_witness:
  "updateTask (JStr ''t1'') sample_updates [sample_task] = [sample_task ++ sample_updates]
   \<and> updateScene (JStr ''t1'') sample_updates [sample_task] = [sample_task ++ sample_updates]
   \<and> updateTask (JStr ''t2'') sample_updates [sample_task] = [sample_task, sample_updates]
   \<and> updateScene (JStr ''t2'') sample_updates [sample_task] = [sample_task]"
  using store_upsert_contract [of "[sample_task]" "JStr ''t1''" sample_updates]
    store_upsert_contract [of "[sample_task]" "JStr ''t2''" sample_updates]
  by (simp add: has_id_def prop_of_def sample_task_def)

text \<open>
  The claim as stated fails for \<^verbatim>\<open>updateScene\<close>: with an id that no scene has, no
  record is created.
\<close>

theorem updateScene_unknown_id_counterexample:
  "updateScene (JStr ''s9'') sample_updates [sample_task] = [sample_task]
   \<and> updateTask (JStr ''s9'') sample_updates [sample_task] = [sample_task, sample_updates]"
  by (simp add: updateScene_def updateTask_def has_id_def prop_of_def sample_task_def)

section \<open>Dispatcher: handling an event twice\<close>

lemma excl_status: "\<not> (strict_eq v (JStr ''completed'') \<and> strict_eq v (JStr ''failed''))"
  by (cases v) auto

lemma excl_type: "\<not> (strict_eq v (JStr ''image'') \<and> strict_eq v (JStr ''video''))"
  by (cases v) auto

lemma route_image:
  assumes "strict_eq (field message ''status'') (JStr ''completed'')"
    and "truthy (field message ''result'')"
    and "strict_eq (field message ''type'') (JStr ''image'')"
    and "truthy (field (field message ''result'') ''scene_id'')"
  shows "route_failed message (route_completed message st) =
     st\<lparr>scenes := updateScene (field (field message ''result'') ''scene_id'')
                [''image_url'' \<mapsto> field (field message ''result'') ''image_url'',
                 ''status'' \<mapsto> JStr ''completed''] (scenes st)\<rparr>"
proof -
  have "\<not> strict_eq (field message ''status'') (JStr ''failed'')"
    using assms(1) excl_status by blast
  moreover have "\<not> strict_eq (field message ''type'') (JStr ''video'')"
    using assms(3) excl_type by blast
  ultimately show ?thesis
    using assms by (simp add: route_completed_def route_failed_def Let_def)
qed

lemma route_video:
  assumes "strict_eq (field message ''status'') (JStr ''completed'')"
    and "truthy (field message ''result'')"
    and "strict_eq (field message ''type'') (JStr ''video'')"
    and "truthy (field (field message ''result'') ''scene_id'')"
  shows "route_failed message (route_completed message st) =
     st\<lparr>scenes := updateScene (field (field message ''result'') ''scene_id'')
                [''video_url'' \<mapsto> field (field message ''result'') ''video_url'',
                 ''status'' \<mapsto> JStr ''completed''] (scenes st)\<rparr>"
proof -
  have "\<not> strict_eq (field message ''status'') (JStr ''failed'')"
    using assms(1) excl_status by blast
  moreover have "\<not> strict_eq (field message ''type'') (JStr ''image'')"
    using assms(3) excl_type by blast
  ultimately show ?thesis
    using assms by (simp add: route_completed_def route_failed_def Let_def)
qed

lemma route_failure:
  assumes "strict_eq (field message ''status'') (JStr ''failed'')"
    and "truthy (opt_field (field message ''result'') ''scene_id'')"
  shows "route_failed message (route_completed message st) =
     st\<lparr>scenes := updateScene (opt_field (field message ''result'') ''scene_id'')
                [''status'' \<mapsto> JStr ''failed''] (scenes st)\<rparr>"
proof -
  have "\<not> strict_eq (field message ''status'') (JStr ''completed'')"
    using assms(1) excl_status by blast
  then show ?thesis
    using assms by (simp add: route_completed_def route_failed_def)
qed

lemma route_nothing:
  assumes "\<not> (strict_eq (field message ''status'') (JStr ''completed'')
               \<and> truthy (field message ''result'')
               \<and> truthy (field (field message ''result'') ''scene_id'')
               \<and> (strict_eq (field message ''type'') (JStr ''image'')
                    \<or> strict_eq (field message ''type'') (JStr ''video'')))"
    and "\<not> (strict_eq (field message ''status'') (JStr ''failed'')
               \<and> truthy (opt_field (field message ''result'') ''scene_id''))"
  shows "route_failed message (route_completed message st) = st"
proof -
  have "route_completed message st = st"
    using assms(1) by (simp add: route_completed_def Let_def) blast
  moreover have "route_failed message st = st"
    using assms(2) by (simp add: route_failed_def) blast
  ultimately show ?thesis by simp
qed

lemma route_scenes:
  "\<exists>g. (\<forall>st. route_failed message (route_completed message st) = st\<lparr>scenes := g (scenes st)\<rparr>)
       \<and> (\<forall>ss. g (g ss) = g ss)"
proof -
  let ?status = "field message ''status''" and ?type = "field message ''type''"
  let ?result = "field message ''result''"
  show ?thesis
  proof (cases "strict_eq ?status (JStr ''completed'') \<and> truthy ?result
                 \<and> truthy (field ?result ''scene_id'')
                 \<and> (strict_eq ?type (JStr ''image'') \<or> strict_eq ?type (JStr ''video''))")
    case True
    show ?thesis
    proof (cases "strict_eq ?type (JStr ''image'')")
      case image: True
      let ?g = "updateScene (field ?result ''scene_id'')
                  [''image_url'' \<mapsto> field ?result ''image_url'', ''status'' \<mapsto> JStr ''completed'']"
      have "\<forall>st. route_failed message (route_completed message st) = st\<lparr>scenes := ?g (scenes st)\<rparr>"
        using True image by (simp add: route_image)
      moreover have "\<forall>ss. ?g (?g ss) = ?g ss"
        by (simp add: updateScene_idem)
      ultimately show ?thesis by blast
    next
      case False
      with True have video: "strict_eq ?type (JStr ''video'')" by simp
      let ?g = "updateScene (field ?result ''scene_id'')
                  [''video_url'' \<mapsto> field ?result ''video_url'', ''status'' \<mapsto> JStr ''completed'']"
      have "\<forall>st. route_failed message (route_completed message st) = st\<lparr>scenes := ?g (scenes st)\<rparr>"
        using True video by (simp add: route_video)
      moreover have "\<forall>ss. ?g (?g ss) = ?g ss"
        by (simp add: updateScene_idem)
      ultimately show ?thesis by blast
    qed
  next
    case no_result: False
    show ?thesis
    proof (cases "strict_eq ?status (JStr ''failed'')
                   \<and> truthy (opt_field ?result ''scene_id'')")
      case True
      let ?g = "updateScene (opt_field ?result ''scene_id'') [''status'' \<mapsto> JStr ''failed'']"
      have "\<forall>st. route_failed message (route_completed message st) = st\<lparr>scenes := ?g (scenes st)\<rparr>"
        using True by (simp add: route_failure)
      moreover have "\<forall>ss. ?g (?g ss) = ?g ss"
        by (simp add: updateScene_idem)
      ultimately show ?thesis by blast
    next
      case False
      have "\<forall>st. route_failed message (route_completed message st) = st\<lparr>scenes := id (scenes st)\<rparr>"
        using route_nothing [OF no_result False] by simp
      moreover have "\<forall>ss::'a js_object list. id (id ss) = id ss"
        by simp
      ultimately show ?thesis by blast
    qed
  qed
qed

lemma handleMessage_throws:
  assumes "throws_on (onMessage cfg) message"
  shows "handleMessage cfg message st = (Some CallbackError, st\<lparr>lastMessage := Some message\<rparr>)"
  using assms by (simp add: handleMessage_def)

lemma handleMessage_applied:
  assumes "\<not> throws_on (onMessage cfg) message" and "\<not> nullish message"
  shows "handleMessage cfg message st =
     (None, route_failed message (route_completed message
        (st\<lparr>lastMessage := Some message,
            tasks := updateTask (field message ''task_id'') (task_updates message) (tasks st)\<rparr>)))"
  using assms by (simp add: handleMessage_def Let_def)

text \<open>
  Claim C8. For every event with a string \<^verbatim>\<open>task_id\<close>, so for every well-formed
  progress event, and for every state: handling the event a second time changes
  nothing. The state after two dispatches, and with it the task list and the scene
  list, is the state after one.
\<close>

theorem dispatch_idempotent:
  assumes "field message ''task_id'' = JStr T"
  shows "snd (handleMessage cfg message (snd (handleMessage cfg message st)))
           = snd (handleMessage cfg message st)
         \<and> tasks (snd (handleMessage cfg message (snd (handleMessage cfg message st))))
           = tasks (snd (handleMessage cfg message st))
         \<and> scenes (snd (handleMessage cfg message (snd (handleMessage cfg message st))))
           = scenes (snd (handleMessage cfg message st))"
proof -
  have nn: "\<not> nullish message"
    using assms by (rule field_JStr_not_nullish)
  let ?u = "task_updates message" and ?T = "field message ''task_id''"
  have idem_tasks: "updateTask ?T ?u (updateTask ?T ?u ts) = updateTask ?T ?u ts" for ts
    using updateTask_idem [of ?u ?T ts] assms by (simp add: task_updates_id)
  obtain g where g: "\<And>st::'a client. route_failed message (route_completed message st)
                        = st\<lparr>scenes := g (scenes st)\<rparr>"
    and gg: "\<And>ss. g (g ss) = g ss"
    using route_scenes [of message] by blast
  have once: "snd (handleMessage cfg message (snd (handleMessage cfg message st)))
      = snd (handleMessage cfg message st)"
  proof (cases "throws_on (onMessage cfg) message")
    case True
    then show ?thesis by (simp add: handleMessage_throws)
  next
    case False
    have "snd (handleMessage cfg message s) =
        s\<lparr>lastMessage := Some message, tasks := updateTask ?T ?u (tasks s),
          scenes := g (scenes s)\<rparr>" for s :: "'a client"
      using False nn by (simp add: handleMessage_applied g)
    then show ?thesis
      by (simp add: idem_tasks gg)
  qed
  then show ?thesis by simp
qed

theorem dispatch_idempotent_witness:
  "field msg_completed ''task_id'' = JStr ''t1''
   \<and> tasks (snd (handleMessage sample_cfg msg_completed
               (snd (handleMessage sample_cfg msg_completed sample_client))))
     = tasks (snd (handleMessage sample_cfg msg_completed sample_client))
   \<and> scenes (snd (handleMessage sample_cfg msg_completed
               (snd (handleMessage sample_cfg msg_completed sample_client))))
     = scenes (snd (handleMessage sample_cfg msg_completed sample_client))"
  using dispatch_idempotent [of msg_completed "''t1''" sample_cfg sample_client]
  by (simp add: msg_completed_def)

section \<open>Dispatcher: malformed and unvalidated messages\<close>

text \<open>
  Claim C6. For every input string the handler of inbound messages returns without
  throwing. When the string does not parse, the failure is logged with
  \<^verbatim>\<open>console.error\<close> and nothing else happens: the task list, the scene list and the
  rest of the state are as before.
\<close>

theorem dispatch_never_throws:
  "fst (ws_onmessage cfg raw st) = None
   \<and> (JSON_parse cfg raw = None \<longrightarrow>
        snd (ws_onmessage cfg raw st) = emit ConsoleError st
        \<and> tasks (snd (ws_onmessage cfg raw st)) = tasks st
        \<and> scenes (snd (ws_onmessage cfg raw st)) = scenes st
        \<and> lastMessage (snd (ws_onmessage cfg raw st)) = lastMessage st)"
proof -
  have "fst (ws_onmessage cfg raw st) = None"
    by (simp add: ws_onmessage_def split: prod.split option.split)
  moreover have "snd (ws_onmessage cfg raw st) = emit ConsoleError st"
    if "JSON_parse cfg raw = None"
    using that by (simp add: ws_onmessage_def onmessage_try_def)
  ultimately show ?thesis
    by (simp add: emit_def)
qed

theorem dispatch_never_throws_witness:
  "JSON_parse sample_cfg ''{oops'' = None
   \<and> fst (ws_onmessage sample_cfg ''{oops'' sample_client) = None
   \<and> tasks (snd (ws_onmessage sample_cfg ''{oops'' sample_client)) = tasks sample_client
   \<and> scenes (snd (ws_onmessage sample_cfg ''{oops'' sample_client)) = scenes sample_client"
  using dispatch_never_throws [of sample_cfg "''{oops''" sample_client]
  by (simp add: sample_cfg_def sample_parse_def emit_def)

text \<open>
  Claim C10, as the code has it. The handler validates nothing: whenever the inbound
  string parses to a value other than \<^verbatim>\<open>null\<close>, its \<^verbatim>\<open>type\<close> is not \<^verbatim>\<open>pong\<close>
  and the caller's \<^verbatim>\<open>onMessage\<close> callback, if any, returns, the task list becomes
  \<^verbatim>\<open>updateTask(message.task_id, {...})\<close> with all six properties, a missing field giving
  \<^verbatim>\<open>undefined\<close>. Either the record is appended or it is merged over an existing one;
  the message is not discarded.
\<close>

theorem dispatch_no_validation:
  assumes "JSON_parse cfg raw = Some message" and "\<not> nullish message"
    and "\<not> strict_eq (field message ''type'') (JStr ''pong'')"
    and "\<not> throws_on (onMessage cfg) message"
  shows "tasks (snd (ws_onmessage cfg raw st))
           = updateTask (field message ''task_id'') (task_updates message) (tasks st)
         \<and> (tasks (snd (ws_onmessage cfg raw st)) = tasks st @ [task_updates message]
              \<or> (\<exists>i<length (tasks st). tasks (snd (ws_onmessage cfg raw st))
                     = (tasks st)[i := tasks st ! i ++ task_updates message]))
         \<and> dom (task_updates message)
              = {''id'', ''type'', ''status'', ''progress'', ''progress_message'', ''error_message''}
         \<and> lastMessage (snd (ws_onmessage cfg raw st)) = Some message"
proof -
  let ?u = "task_updates message" and ?T = "field message ''task_id''"
  have run: "ws_onmessage cfg raw st = handleMessage cfg message st"
    using assms by (simp add: ws_onmessage_def onmessage_try_def handleMessage_applied)
  have ts: "tasks (snd (ws_onmessage cfg raw st)) = updateTask ?T ?u (tasks st)"
    using assms run by (simp add: tasks_handleMessage)
  have shape: "updateTask ?T ?u (tasks st) = tasks st @ [?u]
      \<or> (\<exists>i<length (tasks st). updateTask ?T ?u (tasks st) = (tasks st)[i := tasks st ! i ++ ?u])"
  proof (cases "findIndex (has_id ?T) (tasks st)")
    case None
    then show ?thesis by (simp add: updateTask_new)
  next
    case (Some i)
    then have "i < length (tasks st)" by (simp add: findIndex_Some_iff)
    with Some show ?thesis by (auto simp: updateTask_found)
  qed
  have keys: "dom ?u = {''id'', ''type'', ''status'', ''progress'', ''progress_message'',
      ''error_message''}"
    by (auto simp: task_updates_def)
  have last: "lastMessage (snd (ws_onmessage cfg raw st)) = Some message"
    using assms run by (simp add: handleMessage_applied route_completed_def route_failed_def Let_def)
  from ts shape keys last show ?thesis by simp
qed

theorem dispatch_no_validation_witness:
  "JSON_parse sample_cfg ''{}'' = Some (JObj [])
   \<and> tasks (snd (ws_onmessage sample_cfg ''{}'' sample_client)) = [task_updates (JObj [])]
   \<and> task_updates (JObj []) ''id'' = Some (JUndefined :: int jsval)
   \<and> task_updates (JObj []) ''status'' = Some (JUndefined :: int jsval)"
  using dispatch_no_validation [of sample_cfg "''{}''" "JObj []" sample_client]
  by (simp add: sample_cfg_def sample_parse_def throws_on_def updateTask_def sample_client_def
      init_def task_updates_def)

text \<open>
  The claim as stated fails on the text \<^verbatim>\<open>null\<close>: it parses as JSON and its type is
  not \<^verbatim>\<open>pong\<close>, but reading \<^verbatim>\<open>message.type\<close> throws inside the \<^verbatim>\<open>try\<close>, and the
  message is logged and discarded with no task inserted or overwritten.
\<close>

theorem null_message_discarded_counterexample:
  "JSON_parse sample_cfg ''null'' = Some JNull
   \<and> tasks (snd (ws_onmessage sample_cfg ''null'' sample_client)) = []
   \<and> snd (ws_onmessage sample_cfg ''null'' sample_client) = emit ConsoleError sample_client"
  by (simp add: sample_cfg_def sample_parse_def ws_onmessage_def onmessage_try_def
      sample_client_def init_def emit_def)

section \<open>Connecting without a credential\<close>

text \<open>
  Claim C9. When the token accessor returns nothing at the time \<^verbatim>\<open>connect()\<close> is
  called, the call sets the error state and returns: no socket is created, no timer is
  set, nothing is asked of the browser, and no exception leaves the call.
\<close>

theorem connect_without_token:
  assumes "no_token (token st)"
  shows "connect st = st\<lparr>error := Some NotLoggedIn\<rparr>
         \<and> error (connect st) = Some NotLoggedIn
         \<and> socks (connect st) = socks st
         \<and> socket (connect st) = socket st
         \<and> effects (connect st) = effects st
         \<and> timeouts (connect st) = timeouts st
         \<and> step cfg Connect st = st\<lparr>error := Some NotLoggedIn\<rparr>"
  using assms by (simp add: connect_def)

theorem connect_without_token_witness:
  "no_token (token (init [] [] None False :: int client))
   \<and> error (connect (init [] [] None False :: int client)) = Some NotLoggedIn
   \<and> socks (connect (init [] [] None False :: int client)) = []
   \<and> effects (connect (init [] [] None False :: int client)) = []"
  using connect_without_token [of "init [] [] None False :: int client" sample_cfg]
  by (simp add: init_def no_token_def)

section \<open>The attempt counter along the events\<close>

lemma attempts_emit [simp]: "reconnectAttempts (emit e st) = reconnectAttempts st"
  by (simp add: emit_def)

lemma attempts_stopHeartbeat [simp]: "reconnectAttempts (stopHeartbeat st) = reconnectAttempts st"
  by (simp add: stopHeartbeat_def emit_def split: option.split)

lemma attempts_startHeartbeat [simp]: "reconnectAttempts (startHeartbeat st) = reconnectAttempts st"
  by (simp add: startHeartbeat_def emit_def Let_def)

lemma attempts_cancelReconnect [simp]: "reconnectAttempts (cancelReconnect st) = reconnectAttempts st"
  by (simp add: cancelReconnect_def emit_def split: option.split)

lemma attempts_scheduleReconnect [simp]:
  "reconnectAttempts (scheduleReconnect st) = Suc (reconnectAttempts st)"
  by (simp add: scheduleReconnect_def emit_def Let_def)

lemma attempts_connect [simp]: "reconnectAttempts (connect st) = reconnectAttempts st"
  by (simp add: connect_def emit_def Let_def)

lemma attempts_ws_close [simp]: "reconnectAttempts (ws_close i c st) = reconnectAttempts st"
  by (simp add: ws_close_def emit_def Let_def)

lemma attempts_send [simp]: "reconnectAttempts (send st) = reconnectAttempts st"
  by (simp add: send_def emit_def split: option.split)

lemma attempts_finish [simp]: "reconnectAttempts (finish r) = reconnectAttempts (snd r)"
  by (simp add: finish_def split: prod.split option.split)

lemma attempts_route [simp]:
  "reconnectAttempts (route_completed m st) = reconnectAttempts st"
  "reconnectAttempts (route_failed m st) = reconnectAttempts st"
  by (simp_all add: route_completed_def route_failed_def Let_def)

lemma attempts_handleMessage [simp]:
  "reconnectAttempts (snd (handleMessage cfg m st)) = reconnectAttempts st"
  by (simp add: handleMessage_def Let_def)

lemma attempts_ws_onmessage [simp]:
  "reconnectAttempts (snd (ws_onmessage cfg raw st)) = reconnectAttempts st"
  by (simp add: ws_onmessage_def onmessage_try_def split: prod.split option.split)
     (metis attempts_handleMessage snd_conv)

lemma attempts_ws_onerror [simp]:
  "reconnectAttempts (snd (ws_onerror cfg i st)) = reconnectAttempts st"
  by (simp add: ws_onerror_def Let_def)

lemma attempts_ws_onopen [simp]: "reconnectAttempts (snd (ws_onopen cfg st)) = 0"
  by (simp add: ws_onopen_def Let_def)

lemma attempts_ws_onclose:
  "reconnectAttempts (snd (ws_onclose cfg wasClean st)) =
     (if \<not> throws (onClose cfg) \<and> \<not> wasClean \<and> reconnectAttempts st < MAX_RECONNECT_ATTEMPTS
      then Suc (reconnectAttempts st) else reconnectAttempts st)"
  by (simp add: ws_onclose_def Let_def)

lemma attempts_disconnect [simp]: "reconnectAttempts (disconnect st) = 0"
  by (simp add: disconnect_def Let_def)

lemma reconnectAttempts_step:
  "reconnectAttempts (step cfg ev st) =
     (if resets_attempts ev st then 0
      else if abnormal_close ev st \<and> \<not> throws (onClose cfg)
              \<and> reconnectAttempts st < MAX_RECONNECT_ATTEMPTS
      then Suc (reconnectAttempts st)
      else reconnectAttempts st)"
proof (cases ev)
  case (SockClose i wasClean)
  then show ?thesis by (simp add: attempts_ws_onclose)
next
  case (VisibilityChange visible)
  then show ?thesis by (simp add: on_visibilitychange_def resetReconnect_def)
qed (simp_all add: resetReconnect_def)

section \<open>Timers stay tracked by their handles\<close>

lemma frame_emit [simp]:
  "timeouts (emit e st) = timeouts st" "intervals (emit e st) = intervals st"
  "reconnectTimer (emit e st) = reconnectTimer st" "heartbeatTimer (emit e st) = heartbeatTimer st"
  "socks (emit e st) = socks st" "error (emit e st) = error st"
  by (simp_all add: emit_def)

lemma frame_connect [simp]:
  "timeouts (connect st) = timeouts st" "intervals (connect st) = intervals st"
  "reconnectTimer (connect st) = reconnectTimer st" "heartbeatTimer (connect st) = heartbeatTimer st"
  by (simp_all add: connect_def Let_def)

lemma frame_ws_close [simp]:
  "timeouts (ws_close i c st) = timeouts st" "intervals (ws_close i c st) = intervals st"
  "reconnectTimer (ws_close i c st) = reconnectTimer st"
  "heartbeatTimer (ws_close i c st) = heartbeatTimer st"
  "length (socks (ws_close i c st)) = length (socks st)"
  "error (ws_close i c st) = error st"
  by (simp_all add: ws_close_def Let_def)

lemma frame_send [simp]:
  "timeouts (send st) = timeouts st" "intervals (send st) = intervals st"
  "reconnectTimer (send st) = reconnectTimer st" "heartbeatTimer (send st) = heartbeatTimer st"
  "socks (send st) = socks st"
  by (simp_all add: send_def split: option.split)

lemma frame_resetReconnect [simp]:
  "timeouts (resetReconnect st) = timeouts st" "intervals (resetReconnect st) = intervals st"
  "reconnectTimer (resetReconnect st) = reconnectTimer st"
  "heartbeatTimer (resetReconnect st) = heartbeatTimer st"
  "socks (resetReconnect st) = socks st"
  by (simp_all add: resetReconnect_def)

lemma frame_route_completed [simp]:
  "timeouts (route_completed m st) = timeouts st" "intervals (route_completed m st) = intervals st"
  "reconnectTimer (route_completed m st) = reconnectTimer st"
  "heartbeatTimer (route_completed m st) = heartbeatTimer st"
  "socks (route_completed m st) = socks st"
  by (simp_all add: route_completed_def Let_def)

lemma frame_route_failed [simp]:
  "timeouts (route_failed m st) = timeouts st" "intervals (route_failed m st) = intervals st"
  "reconnectTimer (route_failed m st) = reconnectTimer st"
  "heartbeatTimer (route_failed m st) = heartbeatTimer st"
  "socks (route_failed m st) = socks st"
  by (simp_all add: route_failed_def)

lemma frame_handleMessage [simp]:
  "timeouts (snd (handleMessage cfg m st)) = timeouts st"
  "intervals (snd (handleMessage cfg m st)) = intervals st"
  "reconnectTimer (snd (handleMessage cfg m st)) = reconnectTimer st"
  "heartbeatTimer (snd (handleMessage cfg m st)) = heartbeatTimer st"
  "socks (snd (handleMessage cfg m st)) = socks st"
  by (simp_all add: handleMessage_def Let_def)

lemma ws_onmessage_cases:
  "snd (ws_onmessage cfg raw st) = st
   \<or> snd (ws_onmessage cfg raw st) = emit ConsoleError st
   \<or> (\<exists>m. snd (ws_onmessage cfg raw st) = snd (handleMessage cfg m st))
   \<or> (\<exists>m. snd (ws_onmessage cfg raw st) = emit ConsoleError (snd (handleMessage cfg m st)))"
proof (cases "JSON_parse cfg raw")
  case None
  then show ?thesis by (simp add: ws_onmessage_def onmessage_try_def)
next
  case (Some m)
  show ?thesis
  proof (cases "nullish m \<or> strict_eq (field m ''type'') (JStr ''pong'')")
    case True
    with Some show ?thesis by (auto simp: ws_onmessage_def onmessage_try_def)
  next
    case False
    with Some have "ws_onmessage cfg raw st =
        (case handleMessage cfg m st of (Some e, st1) \<Rightarrow> (None, emit ConsoleError st1)
                                      | (None, st1) \<Rightarrow> (None, st1))"
      by (simp add: ws_onmessage_def onmessage_try_def)
    then have "snd (ws_onmessage cfg raw st) = snd (handleMessage cfg m st)
        \<or> snd (ws_onmessage cfg raw st) = emit ConsoleError (snd (handleMessage cfg m st))"
      by (cases "handleMessage cfg m st"; cases "fst (handleMessage cfg m st)") auto
    then show ?thesis by blast
  qed
qed

lemma frame_ws_onmessage [simp]:
  "timeouts (snd (ws_onmessage cfg raw st)) = timeouts st"
  "intervals (snd (ws_onmessage cfg raw st)) = intervals st"
  "reconnectTimer (snd (ws_onmessage cfg raw st)) = reconnectTimer st"
  "heartbeatTimer (snd (ws_onmessage cfg raw st)) = heartbeatTimer st"
  "socks (snd (ws_onmessage cfg raw st)) = socks st"
  using ws_onmessage_cases [of cfg raw st] by auto

lemma frame_ws_onerror [simp]:
  "timeouts (snd (ws_onerror cfg i st)) = timeouts st"
  "intervals (snd (ws_onerror cfg i st)) = intervals st"
  "reconnectTimer (snd (ws_onerror cfg i st)) = reconnectTimer st"
  "heartbeatTimer (snd (ws_onerror cfg i st)) = heartbeatTimer st"
  "length (socks (snd (ws_onerror cfg i st))) = length (socks st)"
  by (simp_all add: ws_onerror_def Let_def)

lemma frame_finish [simp]:
  "timeouts (finish r) = timeouts (snd r)" "intervals (finish r) = intervals (snd r)"
  "reconnectTimer (finish r) = reconnectTimer (snd r)"
  "heartbeatTimer (finish r) = heartbeatTimer (snd r)"
  "socks (finish r) = socks (snd r)" "error (finish r) = error (snd r)"
  by (simp_all add: finish_def split: prod.split option.split)

lemma frame_stopHeartbeat [simp]:
  "timeouts (stopHeartbeat st) = timeouts st"
  "reconnectTimer (stopHeartbeat st) = reconnectTimer st"
  "heartbeatTimer (stopHeartbeat st) = None"
  "socks (stopHeartbeat st) = socks st" "error (stopHeartbeat st) = error st"
  by (simp_all add: stopHeartbeat_def split: option.split)

lemma frame_cancelReconnect [simp]:
  "intervals (cancelReconnect st) = intervals st"
  "heartbeatTimer (cancelReconnect st) = heartbeatTimer st"
  "reconnectTimer (cancelReconnect st) = None"
  "socks (cancelReconnect st) = socks st" "error (cancelReconnect st) = error st"
  by (simp_all add: cancelReconnect_def split: option.split)

lemma intervals_stopHeartbeat:
  "intervals (stopHeartbeat st) =
     (case heartbeatTimer st of None \<Rightarrow> intervals st | Some h \<Rightarrow> removeAll h (intervals st))"
  by (simp add: stopHeartbeat_def split: option.split)

lemma timeouts_cancelReconnect:
  "timeouts (cancelReconnect st) =
     (case reconnectTimer st of None \<Rightarrow> timeouts st
      | Some h \<Rightarrow> filter (\<lambda>t. fst t \<noteq> h) (timeouts st))"
  by (simp add: cancelReconnect_def split: option.split)

lemma tracked_intervals_stop:
  assumes "timers_tracked st"
  shows "intervals (stopHeartbeat st) = []"
proof (cases "heartbeatTimer st")
  case None
  with assms have "intervals st = []"
    by (cases "intervals st") (auto simp: timers_tracked_def)
  with None show ?thesis by (simp add: intervals_stopHeartbeat)
next
  case (Some h)
  with assms have "\<forall>x\<in>set (intervals st). x = h"
    by (simp add: timers_tracked_def)
  then have "removeAll h (intervals st) = []"
    by (induction "intervals st") (auto simp: filter_empty_conv removeAll_filter_not_eq)
  with Some show ?thesis by (simp add: intervals_stopHeartbeat)
qed

lemma tracked_timeouts_cancel:
  assumes "timers_tracked st"
  shows "timeouts (cancelReconnect st) = []"
proof (cases "reconnectTimer st")
  case None
  with assms have "timeouts st = []"
    by (cases "timeouts st") (auto simp: timers_tracked_def)
  with None show ?thesis by (simp add: timeouts_cancelReconnect)
next
  case (Some h)
  with assms have "\<forall>t\<in>set (timeouts st). fst t = h"
    by (simp add: timers_tracked_def)
  then have "filter (\<lambda>t. fst t \<noteq> h) (timeouts st) = []"
    by (simp add: filter_empty_conv)
  with Some show ?thesis by (simp add: timeouts_cancelReconnect)
qed

lemma tracked_cong:
  assumes "timeouts a = timeouts b" and "intervals a = intervals b"
    and "reconnectTimer a = reconnectTimer b" and "heartbeatTimer a = heartbeatTimer b"
  shows "timers_tracked a = timers_tracked b"
  using assms by (simp add: timers_tracked_def)

lemma tracked_stopHeartbeat:
  assumes "timers_tracked st"
  shows "timers_tracked (stopHeartbeat st)"
  using assms tracked_intervals_stop [OF assms] by (simp add: timers_tracked_def)

lemma tracked_cancelReconnect:
  assumes "timers_tracked st"
  shows "timers_tracked (cancelReconnect st)"
  using assms tracked_timeouts_cancel [OF assms] by (simp add: timers_tracked_def)

lemma tracked_startHeartbeat:
  assumes "timers_tracked st"
  shows "timers_tracked (startHeartbeat st)"
proof -
  have "timers_tracked (stopHeartbeat st)" and "intervals (stopHeartbeat st) = []"
    using assms by (simp_all add: tracked_stopHeartbeat tracked_intervals_stop)
  then show ?thesis
    by (simp add: startHeartbeat_def Let_def timers_tracked_def)
qed

lemma tracked_scheduleReconnect:
  assumes "timers_tracked st"
  shows "timers_tracked (scheduleReconnect st)"
proof -
  have "timers_tracked (cancelReconnect st)" and "timeouts (cancelReconnect st) = []"
    using assms by (simp_all add: tracked_cancelReconnect tracked_timeouts_cancel)
  then show ?thesis
    by (simp add: scheduleReconnect_def Let_def timers_tracked_def)
qed

lemma tracked_connect: "timers_tracked (connect st) = timers_tracked st"
  by (rule tracked_cong) simp_all

lemma tracked_emit: "timers_tracked (emit e st) = timers_tracked st"
  by (rule tracked_cong) simp_all

lemma tracked_finish: "timers_tracked (finish r) = timers_tracked (snd r)"
  by (rule tracked_cong) simp_all

lemma tracked_ws_onopen:
  assumes "timers_tracked st"
  shows "timers_tracked (snd (ws_onopen cfg st))"
proof -
  have "timers_tracked (emit ConsoleLog (st\<lparr>connected := True, connecting := False,
          reconnectAttempts := 0, error := None\<rparr>))"
    using assms by (simp add: timers_tracked_def)
  then show ?thesis
    by (simp add: ws_onopen_def Let_def tracked_startHeartbeat)
qed

lemma tracked_ws_onclose:
  assumes "timers_tracked st"
  shows "timers_tracked (snd (ws_onclose cfg wasClean st))"
proof -
  let ?st2 = "emit ConsoleLog (stopHeartbeat (st\<lparr>connected := False, connecting := False\<rparr>))"
  have "timers_tracked (st\<lparr>connected := False, connecting := False\<rparr>)"
    using assms by (simp add: timers_tracked_def)
  then have st2: "timers_tracked ?st2"
    by (simp add: tracked_emit tracked_stopHeartbeat)
  then have "timers_tracked (scheduleReconnect ?st2)"
    by (rule tracked_scheduleReconnect)
  moreover have "timers_tracked (emit ElMessageError (?st2\<lparr>error := Some ConnectFailedRefresh\<rparr>))"
    using st2 by (simp add: timers_tracked_def)
  ultimately show ?thesis
    using st2 by (simp add: ws_onclose_def Let_def)
qed

lemma tracked_disconnect:
  assumes "timers_tracked st"
  shows "timers_tracked (disconnect st)"
    and "timeouts (disconnect st) = []" and "intervals (disconnect st) = []"
proof -
  let ?st1 = "stopHeartbeat (cancelReconnect st)"
  have c: "timers_tracked (cancelReconnect st)" and c0: "timeouts (cancelReconnect st) = []"
    using assms by (simp_all add: tracked_cancelReconnect tracked_timeouts_cancel)
  then have s1: "timers_tracked ?st1" and i0: "intervals ?st1 = []" and t0: "timeouts ?st1 = []"
    by (simp_all add: tracked_stopHeartbeat tracked_intervals_stop)
  show "timeouts (disconnect st) = []"
    using t0 by (simp add: disconnect_def Let_def split: option.split)
  show "intervals (disconnect st) = []"
    using i0 by (simp add: disconnect_def Let_def split: option.split)
  show "timers_tracked (disconnect st)"
    using s1 by (simp add: disconnect_def Let_def timers_tracked_def split: option.split)
qed

lemma tracked_step:
  assumes "timers_tracked st"
  shows "timers_tracked (step cfg ev st)"
proof (cases ev)
  case Connect
  with assms show ?thesis by (simp add: tracked_connect)
next
  case Disconnect
  with assms show ?thesis by (simp add: tracked_disconnect)
next
  case Send
  have "timers_tracked (send st) = timers_tracked st"
    by (rule tracked_cong) simp_all
  with assms Send show ?thesis by simp
next
  case ResetReconnect
  have "timers_tracked (resetReconnect st) = timers_tracked st"
    by (rule tracked_cong) simp_all
  with assms ResetReconnect show ?thesis by simp
next
  case (VisibilityChange visible)
  have "timers_tracked (connect (resetReconnect st)) = timers_tracked st"
    by (rule tracked_cong) simp_all
  with assms VisibilityChange show ?thesis by (simp add: on_visibilitychange_def)
next
  case (SockOpen i)
  have "timers_tracked (st\<lparr>socks := (socks st)[i := OPEN]\<rparr>)"
    using assms by (simp add: timers_tracked_def)
  then have "timers_tracked (snd (ws_onopen cfg (st\<lparr>socks := (socks st)[i := OPEN]\<rparr>)))"
    by (rule tracked_ws_onopen)
  with assms SockOpen show ?thesis by (simp add: tracked_finish)
next
  case (SockMessage i raw)
  have "timers_tracked (snd (ws_onmessage cfg raw st)) = timers_tracked st"
    by (rule tracked_cong) simp_all
  with assms SockMessage show ?thesis by (simp add: tracked_finish)
next
  case (SockError i)
  have "timers_tracked (snd (ws_onerror cfg i st)) = timers_tracked st"
    by (rule tracked_cong) simp_all
  with assms SockError show ?thesis by (simp add: tracked_finish)
next
  case (SockClose i wasClean)
  have "timers_tracked (st\<lparr>socks := (socks st)[i := CLOSED]\<rparr>)"
    using assms by (simp add: timers_tracked_def)
  then have "timers_tracked (snd (ws_onclose cfg wasClean (st\<lparr>socks := (socks st)[i := CLOSED]\<rparr>)))"
    by (rule tracked_ws_onclose)
  with assms SockClose show ?thesis by (simp add: tracked_finish)
next
  case (TimeoutFire h)
  have "timers_tracked (st\<lparr>timeouts := filter (\<lambda>t. fst t \<noteq> h) (timeouts st)\<rparr>)"
    using assms by (simp add: timers_tracked_def)
  with assms TimeoutFire show ?thesis by (simp add: tracked_connect)
next
  case (IntervalTick h)
  have "timers_tracked (send st) = timers_tracked st"
    by (rule tracked_cong) simp_all
  with assms IntervalTick show ?thesis by simp
next
  case (SetToken t)
  with assms show ?thesis by (simp add: timers_tracked_def)
qed

lemma tracked_run:
  assumes "timers_tracked st"
  shows "timers_tracked (run cfg evs st)"
  using assms by (induction evs arbitrary: st) (simp_all add: tracked_step)

lemma tracked_init: "timers_tracked (init ts ss tok wt)"
  by (simp add: timers_tracked_def init_def)

section \<open>The sample runs\<close>

lemmas handler_defs = connect_def disconnect_def send_def
  resetReconnect_def on_visibilitychange_def ws_onopen_def ws_onclose_def ws_onerror_def
  ws_close_def scheduleReconnect_def cancelReconnect_def startHeartbeat_def stopHeartbeat_def
  emit_def finish_def throws_def no_token_def socket_open_def getReconnectDelay_def
  Math_pow2_def MAX_RECONNECT_ATTEMPTS_def BASE_RECONNECT_DELAY_def MAX_RECONNECT_DELAY_def
  HEARTBEAT_INTERVAL_def Let_def

lemma sample_cfg_fields:
  "JSON_parse sample_cfg = sample_parse" "onOpen sample_cfg = None"
  "onClose sample_cfg = None" "onMessage sample_cfg = None" "onError sample_cfg = None"
  by (simp_all add: sample_cfg_def)

lemma run_append: "run cfg (xs @ ys) st = run cfg ys (run cfg xs st)"
  by (induction xs arbitrary: st) simp_all

lemma reset_free_append:
  "reset_free cfg (xs @ ys) st \<longleftrightarrow> reset_free cfg xs st \<and> reset_free cfg ys (run cfg xs st)"
  by (induction xs arbitrary: st) simp_all

lemma count_abnormal_closes_append:
  "count_abnormal_closes cfg (xs @ ys) st =
     count_abnormal_closes cfg xs st + count_abnormal_closes cfg ys (run cfg xs st)"
  by (induction xs arbitrary: st) simp_all

lemma fresh_client_attempts: "reconnectAttempts fresh_client = 0"
  by (simp add: fresh_client_def init_def)

lemma after_connect:
  "run sample_cfg [Connect] fresh_client =
     \<lparr>socket = Some 0, connected = False, connecting = True, lastMessage = None,
      reconnectAttempts = 0, error = None, heartbeatTimer = None, reconnectTimer = None,
      tasks = [], scenes = [], socks = [CONNECTING], timeouts = [], intervals = [],
      next_handle = 1, token = Some ''tok'', ws_throws = False,
      effects = [NewWebSocket 0]\<rparr>"
  by (simp add: fresh_client_def init_def sample_cfg_fields handler_defs)

lemma after_two_closes:
  "run sample_cfg two_closes fresh_client =
     \<lparr>socket = Some 1, connected = False, connecting = False, lastMessage = None,
      reconnectAttempts = 2, error = None, heartbeatTimer = None, reconnectTimer = Some 2,
      tasks = [], scenes = [], socks = [CLOSED, CLOSED], timeouts = [(2, 2000)],
      intervals = [], next_handle = 3, token = Some ''tok'', ws_throws = False,
      effects = [NewWebSocket 0, ConsoleLog, ConsoleLog, SetTimeout 1 1000, NewWebSocket 1,
                 ConsoleLog, ClearTimeout 1, ConsoleLog, SetTimeout 2 2000]\<rparr>"
  by (simp add: two_closes_def fresh_client_def init_def sample_cfg_fields handler_defs)

lemma after_five_closes:
  "run sample_cfg five_closes fresh_client =
     \<lparr>socket = Some 4, connected = False, connecting = False, lastMessage = None,
      reconnectAttempts = 5, error = None, heartbeatTimer = None, reconnectTimer = Some 5,
      tasks = [], scenes = [], socks = [CLOSED, CLOSED, CLOSED, CLOSED, CLOSED],
      timeouts = [(5, 16000)], intervals = [], next_handle = 6, token = Some ''tok'',
      ws_throws = False,
      effects = [NewWebSocket 0, ConsoleLog, ConsoleLog, SetTimeout 1 1000,
                 NewWebSocket 1, ConsoleLog, ClearTimeout 1, ConsoleLog, SetTimeout 2 2000,
                 NewWebSocket 2, ConsoleLog, ClearTimeout 2, ConsoleLog, SetTimeout 3 4000,
                 NewWebSocket 3, ConsoleLog, ClearTimeout 3, ConsoleLog, SetTimeout 4 8000,
                 NewWebSocket 4, ConsoleLog, ClearTimeout 4, ConsoleLog, SetTimeout 5 16000]\<rparr>"
  by (simp add: five_closes_def fresh_client_def init_def sample_cfg_fields handler_defs)

lemma five_closes_trace:
  "reset_free sample_cfg five_closes fresh_client"
  "count_abnormal_closes sample_cfg five_closes fresh_client = 5"
  by (simp_all add: five_closes_def fresh_client_def init_def sample_cfg_fields handler_defs)

lemma after_five_closes_fire:
  "run sample_cfg (five_closes @ [TimeoutFire 5]) fresh_client =
     \<lparr>socket = Some 5, connected = False, connecting = True, lastMessage = None,
      reconnectAttempts = 5, error = None, heartbeatTimer = None, reconnectTimer = Some 5,
      tasks = [], scenes = [], socks = [CLOSED, CLOSED, CLOSED, CLOSED, CLOSED, CONNECTING],
      timeouts = [], intervals = [], next_handle = 6, token = Some ''tok'',
      ws_throws = False,
      effects = [NewWebSocket 0, ConsoleLog, ConsoleLog, SetTimeout 1 1000,
                 NewWebSocket 1, ConsoleLog, ClearTimeout 1, ConsoleLog, SetTimeout 2 2000,
                 NewWebSocket 2, ConsoleLog, ClearTimeout 2, ConsoleLog, SetTimeout 3 4000,
                 NewWebSocket 3, ConsoleLog, ClearTimeout 3, ConsoleLog, SetTimeout 4 8000,
                 NewWebSocket 4, ConsoleLog, ClearTimeout 4, ConsoleLog, SetTimeout 5 16000,
                 NewWebSocket 5]\<rparr>"
  by (simp add: run_append after_five_closes sample_cfg_fields handler_defs)

lemma after_six_closes:
  "run sample_cfg six_closes fresh_client =
     \<lparr>socket = Some 5, connected = False, connecting = False, lastMessage = None,
      reconnectAttempts = 5, error = Some ConnectFailedRefresh, heartbeatTimer = None,
      reconnectTimer = Some 5, tasks = [], scenes = [],
      socks = [CLOSED, CLOSED, CLOSED, CLOSED, CLOSED, CLOSED], timeouts = [],
      intervals = [], next_handle = 6, token = Some ''tok'', ws_throws = False,
      effects = [NewWebSocket 0, ConsoleLog, ConsoleLog, SetTimeout 1 1000,
                 NewWebSocket 1, ConsoleLog, ClearTimeout 1, ConsoleLog, SetTimeout 2 2000,
                 NewWebSocket 2, ConsoleLog, ClearTimeout 2, ConsoleLog, SetTimeout 3 4000,
                 NewWebSocket 3, ConsoleLog, ClearTimeout 3, ConsoleLog, SetTimeout 4 8000,
                 NewWebSocket 4, ConsoleLog, ClearTimeout 4, ConsoleLog, SetTimeout 5 16000,
                 NewWebSocket 5, ConsoleLog, ElMessageError]\<rparr>"
  by (simp add: six_closes_def run_append after_five_closes sample_cfg_fields handler_defs)

lemma six_closes_trace:
  "reset_free sample_cfg six_closes fresh_client"
  "count_abnormal_closes sample_cfg six_closes fresh_client = 6"
  by (simp_all add: six_closes_def reset_free_append count_abnormal_closes_append
      five_closes_trace after_five_closes sample_cfg_fields handler_defs)

section \<open>Teardown\<close>

lemma frame_startHeartbeat [simp]:
  "timeouts (startHeartbeat st) = timeouts st"
  "reconnectTimer (startHeartbeat st) = reconnectTimer st"
  "socks (startHeartbeat st) = socks st" "error (startHeartbeat st) = error st"
  by (simp_all add: startHeartbeat_def Let_def)

lemma frame_scheduleReconnect [simp]:
  "intervals (scheduleReconnect st) = intervals st"
  "heartbeatTimer (scheduleReconnect st) = heartbeatTimer st"
  "socks (scheduleReconnect st) = socks st" "error (scheduleReconnect st) = error st"
  by (simp_all add: scheduleReconnect_def Let_def)

lemma frame_ws_onclose [simp]:
  "socks (snd (ws_onclose cfg wasClean st)) = socks st"
  "intervals (snd (ws_onclose cfg wasClean st)) = intervals (stopHeartbeat st)"
  by (simp_all add: ws_onclose_def Let_def intervals_stopHeartbeat split: option.split)

lemma timeouts_ws_onclose_quiet:
  assumes "wasClean \<or> MAX_RECONNECT_ATTEMPTS \<le> reconnectAttempts st \<or> throws (onClose cfg)"
  shows "timeouts (snd (ws_onclose cfg wasClean st)) = timeouts st"
  using assms by (auto simp: ws_onclose_def Let_def)

lemma frame_disconnect [simp]:
  "length (socks (disconnect st)) = length (socks st)"
  "timeouts (disconnect st) = timeouts (cancelReconnect st)"
  "intervals (disconnect st) = intervals (stopHeartbeat st)"
  by (simp_all add: disconnect_def Let_def intervals_stopHeartbeat split: option.split)

lemma effects_disconnect:
  "effects (disconnect st) = effects st
     @ (case reconnectTimer st of None \<Rightarrow> [] | Some h \<Rightarrow> [ClearTimeout h])
     @ (case heartbeatTimer st of None \<Rightarrow> [] | Some h \<Rightarrow> [ClearInterval h])
     @ (case socket st of None \<Rightarrow> [] | Some i \<Rightarrow> [WsCloseCall i (Some 1000)])"
  by (simp add: disconnect_def cancelReconnect_def stopHeartbeat_def ws_close_def emit_def
      Let_def split: option.split)

text \<open>
  What \<^verbatim>\<open>disconnect()\<close> itself does, in every state the client can reach: it clears
  the reconnect timer, then the heartbeat timer, and only then closes the socket with
  code 1000; when it returns no reconnect timer is pending and no heartbeat is running.
\<close>

lemma disconnect_clears_timers:
  assumes "st = run cfg evs (init ts ss tok wt)"
  shows "effects (disconnect st) = effects st
           @ (case reconnectTimer st of None \<Rightarrow> [] | Some h \<Rightarrow> [ClearTimeout h])
           @ (case heartbeatTimer st of None \<Rightarrow> [] | Some h \<Rightarrow> [ClearInterval h])
           @ (case socket st of None \<Rightarrow> [] | Some i \<Rightarrow> [WsCloseCall i (Some 1000)])"
    and "timeouts (disconnect st) = []" and "intervals (disconnect st) = []"
proof -
  have tracked: "timers_tracked st"
    using assms by (simp add: tracked_run tracked_init)
  then show "timeouts (disconnect st) = []" and "intervals (disconnect st) = []"
    by (rule tracked_disconnect)+
  show "effects (disconnect st) = effects st
           @ (case reconnectTimer st of None \<Rightarrow> [] | Some h \<Rightarrow> [ClearTimeout h])
           @ (case heartbeatTimer st of None \<Rightarrow> [] | Some h \<Rightarrow> [ClearInterval h])
           @ (case socket st of None \<Rightarrow> [] | Some i \<Rightarrow> [WsCloseCall i (Some 1000)])"
    by (rule effects_disconnect)
qed

text \<open>
  Claim C4. After \<^verbatim>\<open>disconnect()\<close> the transport reporting the closure must not
  schedule a reconnect, and no \<^verbatim>\<open>connect()\<close> and no heartbeat may follow. The code
  does not keep this. \<^verbatim>\<open>disconnect()\<close> leaves the handlers of the socket attached, and
  \<^verbatim>\<open>ws.onclose\<close> decides on \<^verbatim>\<open>wasClean\<close> alone, with the counter just reset to 0.
  Run: \<^verbatim>\<open>connect()\<close>, then \<^verbatim>\<open>disconnect()\<close> while the socket is still connecting (its
  effects are the socket and the close with code 1000, and no timer is pending), then
  the closure of that socket, which the browser reports as not clean. The handler
  schedules a reconnect after 1000 ms; the timer calls \<^verbatim>\<open>connect()\<close>, which creates a
  second socket; when that socket opens the client is connected again and a heartbeat
  runs, all after the teardown.
\<close>

theorem reconnect_after_disconnect:
  "effects (run sample_cfg [Connect, Disconnect] fresh_client)
     = [NewWebSocket 0, WsCloseCall 0 (Some 1000)]
   \<and> timeouts (run sample_cfg [Connect, Disconnect] fresh_client) = []
   \<and> timeouts (run sample_cfg [Connect, Disconnect, SockClose 0 False] fresh_client)
     = [(1, 1000)]
   \<and> effects (run sample_cfg [Connect, Disconnect, SockClose 0 False, TimeoutFire 1] fresh_client)
     = [NewWebSocket 0, WsCloseCall 0 (Some 1000), ConsoleLog, ConsoleLog, SetTimeout 1 1000,
        NewWebSocket 1]
   \<and> socks (run sample_cfg [Connect, Disconnect, SockClose 0 False, TimeoutFire 1, SockOpen 1]
        fresh_client) = [CLOSED, OPEN]
   \<and> connected (run sample_cfg [Connect, Disconnect, SockClose 0 False, TimeoutFire 1, SockOpen 1]
        fresh_client)
   \<and> intervals (run sample_cfg [Connect, Disconnect, SockClose 0 False, TimeoutFire 1, SockOpen 1]
        fresh_client) = [2]"
  by (simp add: fresh_client_def init_def sample_cfg_fields handler_defs)

section \<open>Reconnect ceiling\<close>

lemma attempts_run:
  assumes "\<not> throws (onClose cfg)" and "reset_free cfg evs st"
    and "reconnectAttempts st \<le> MAX_RECONNECT_ATTEMPTS"
  shows "reconnectAttempts (run cfg evs st) =
           min (reconnectAttempts st + count_abnormal_closes cfg evs st) MAX_RECONNECT_ATTEMPTS"
  using assms(2,3)
proof (induction evs arbitrary: st)
  case Nil
  then show ?case by simp
next
  case (Cons ev evs)
  let ?st1 = "step cfg ev st"
  from Cons.prems have nr: "\<not> resets_attempts ev st" and rf: "reset_free cfg evs ?st1"
    by simp_all
  have a1: "reconnectAttempts ?st1 =
      (if abnormal_close ev st \<and> reconnectAttempts st < MAX_RECONNECT_ATTEMPTS
       then Suc (reconnectAttempts st) else reconnectAttempts st)"
    using nr assms(1) by (simp add: reconnectAttempts_step)
  with Cons.prems(2) have le: "reconnectAttempts ?st1 \<le> MAX_RECONNECT_ATTEMPTS"
    by auto
  have "reconnectAttempts (run cfg evs ?st1) =
      min (reconnectAttempts ?st1 + count_abnormal_closes cfg evs ?st1) MAX_RECONNECT_ATTEMPTS"
    using rf le by (rule Cons.IH)
  with a1 Cons.prems(2) show ?case by auto
qed

lemma frame_next_handle [simp]:
  "next_handle (emit e st) = next_handle st"
  "next_handle (stopHeartbeat st) = next_handle st"
  "next_handle (cancelReconnect st) = next_handle st"
  by (simp_all add: emit_def stopHeartbeat_def cancelReconnect_def split: option.split)

lemma timeouts_scheduleReconnect:
  "timeouts (scheduleReconnect st) =
     timeouts (cancelReconnect st) @ [(next_handle st, getReconnectDelay (reconnectAttempts st))]"
  by (simp add: scheduleReconnect_def Let_def)

lemma close_schedules:
  assumes "\<not> throws (onClose cfg)" and "abnormal_close ev st"
    and "reconnectAttempts st < MAX_RECONNECT_ATTEMPTS"
  shows "timeouts (step cfg ev st) =
           timeouts (cancelReconnect st) @ [(next_handle st, getReconnectDelay (reconnectAttempts st))]"
    and "error (step cfg ev st) = error st"
    and "reconnectAttempts (step cfg ev st) = Suc (reconnectAttempts st)"
proof -
  from assms(2) obtain i where ev: "ev = SockClose i False"
    and en: "i < length (socks st)" "socks st ! i \<noteq> CLOSED"
    by (cases ev) auto
  let ?st0 = "st\<lparr>socks := (socks st)[i := CLOSED]\<rparr>"
  let ?st2 = "emit ConsoleLog (stopHeartbeat (?st0\<lparr>connected := False, connecting := False\<rparr>))"
  have step: "step cfg ev st = scheduleReconnect ?st2"
    using ev en assms(1,3) by (simp add: ws_onclose_def Let_def finish_def)
  have "timeouts (cancelReconnect ?st2) = timeouts (cancelReconnect st)"
    by (simp add: timeouts_cancelReconnect split: option.split)
  then show "timeouts (step cfg ev st) =
           timeouts (cancelReconnect st) @ [(next_handle st, getReconnectDelay (reconnectAttempts st))]"
    by (simp add: step timeouts_scheduleReconnect)
  show "error (step cfg ev st) = error st"
    by (simp add: step)
  show "reconnectAttempts (step cfg ev st) = Suc (reconnectAttempts st)"
    by (simp add: step)
qed

lemma effects_stopHeartbeat:
  "effects (stopHeartbeat st) =
     effects st @ (case heartbeatTimer st of None \<Rightarrow> [] | Some h \<Rightarrow> [ClearInterval h])"
  by (simp add: stopHeartbeat_def emit_def split: option.split)

lemma close_fails:
  assumes "\<not> throws (onClose cfg)" and "abnormal_close ev st"
    and "MAX_RECONNECT_ATTEMPTS \<le> reconnectAttempts st"
  shows "error (step cfg ev st) = Some ConnectFailedRefresh"
    and "effects (step cfg ev st) = effects (stopHeartbeat st) @ [ConsoleLog, ElMessageError]"
    and "timeouts (step cfg ev st) = timeouts st"
    and "length (socks (step cfg ev st)) = length (socks st)"
proof -
  from assms(2) obtain i where ev: "ev = SockClose i False"
    and en: "i < length (socks st)" "socks st ! i \<noteq> CLOSED"
    by (cases ev) auto
  let ?st0 = "st\<lparr>socks := (socks st)[i := CLOSED]\<rparr>"
  let ?st2 = "emit ConsoleLog (stopHeartbeat (?st0\<lparr>connected := False, connecting := False\<rparr>))"
  have step: "step cfg ev st = emit ElMessageError (?st2\<lparr>error := Some ConnectFailedRefresh\<rparr>)"
    using ev en assms(1,3) by (simp add: ws_onclose_def Let_def finish_def)
  show "error (step cfg ev st) = Some ConnectFailedRefresh"
    by (simp add: step emit_def)
  show "effects (step cfg ev st) = effects (stopHeartbeat st) @ [ConsoleLog, ElMessageError]"
    by (simp add: step emit_def effects_stopHeartbeat)
  show "timeouts (step cfg ev st) = timeouts st"
    by (simp add: step)
  show "length (socks (step cfg ev st)) = length (socks st)"
    by (simp add: step)
qed

lemma failed_step:
  assumes "MAX_RECONNECT_ATTEMPTS \<le> reconnectAttempts st" and "timeouts st = []"
    and "no_reset ev"
  shows "timeouts (step cfg ev st) = [] \<and> length (socks (step cfg ev st)) = length (socks st)
         \<and> reconnectAttempts (step cfg ev st) = reconnectAttempts st"
proof (cases ev)
  case (SockClose i wasClean)
  with assms show ?thesis
    by (simp add: timeouts_ws_onclose_quiet attempts_ws_onclose)
qed (use assms in simp_all)

lemma failed_run:
  assumes "MAX_RECONNECT_ATTEMPTS \<le> reconnectAttempts st" and "timeouts st = []"
    and "list_all no_reset evs"
  shows "timeouts (run cfg evs st) = [] \<and> length (socks (run cfg evs st)) = length (socks st)
         \<and> reconnectAttempts (run cfg evs st) = reconnectAttempts st"
  using assms
proof (induction evs arbitrary: st)
  case Nil
  then show ?case by simp
next
  case (Cons ev evs)
  then have "timeouts (step cfg ev st) = [] \<and> length (socks (step cfg ev st)) = length (socks st)
         \<and> reconnectAttempts (step cfg ev st) = reconnectAttempts st"
    using failed_step [of st ev cfg] by simp
  with Cons.IH [of "step cfg ev st"] Cons.prems show ?case by simp
qed

text \<open>
  Claim C2, as the code has it. Let the \<^verbatim>\<open>onClose\<close> callback return. Along any run that
  starts with the counter at 0 and has no resetting event, the counter is the number of
  abnormal closes, capped at \<^verbatim>\<open>MAX_RECONNECT_ATTEMPTS\<close> = 5. An abnormal close that
  finds the counter below 5, so each of the first five, schedules a reconnect with the
  delay of the backoff policy and leaves the error state alone. An abnormal close that
  finds the counter at 5, so the sixth in a row, sets the error state, raises the
  notification and schedules nothing. From such a state with no timer pending, no
  event of a socket or timer opens a socket or sets a timer, and the counter stays,
  until an external reset.
\<close>

theorem reconnect_ceiling:
  assumes "\<not> throws (onClose cfg)"
  shows "(reconnectAttempts st = 0 \<and> reset_free cfg evs st \<longrightarrow>
            reconnectAttempts (run cfg evs st)
              = min (count_abnormal_closes cfg evs st) MAX_RECONNECT_ATTEMPTS)
         \<and> (abnormal_close ev st \<and> reconnectAttempts st < MAX_RECONNECT_ATTEMPTS \<longrightarrow>
              timeouts (step cfg ev st) = timeouts (cancelReconnect st)
                 @ [(next_handle st, getReconnectDelay (reconnectAttempts st))]
              \<and> error (step cfg ev st) = error st
              \<and> reconnectAttempts (step cfg ev st) = Suc (reconnectAttempts st))
         \<and> (abnormal_close ev st \<and> MAX_RECONNECT_ATTEMPTS \<le> reconnectAttempts st \<longrightarrow>
              error (step cfg ev st) = Some ConnectFailedRefresh
              \<and> effects (step cfg ev st) = effects (stopHeartbeat st) @ [ConsoleLog, ElMessageError]
              \<and> timeouts (step cfg ev st) = timeouts st
              \<and> length (socks (step cfg ev st)) = length (socks st))
         \<and> (MAX_RECONNECT_ATTEMPTS \<le> reconnectAttempts st \<and> timeouts st = []
              \<and> list_all no_reset evs' \<longrightarrow>
              timeouts (run cfg evs' st) = []
              \<and> length (socks (run cfg evs' st)) = length (socks st)
              \<and> reconnectAttempts (run cfg evs' st) = reconnectAttempts st)"
proof -
  have count: "reconnectAttempts (run cfg evs st)
      = min (count_abnormal_closes cfg evs st) MAX_RECONNECT_ATTEMPTS"
    if "reconnectAttempts st = 0" and "reset_free cfg evs st"
    using attempts_run [OF assms that(2)] that(1) by simp
  have sched: "timeouts (step cfg ev st) = timeouts (cancelReconnect st)
                 @ [(next_handle st, getReconnectDelay (reconnectAttempts st))]
              \<and> error (step cfg ev st) = error st
              \<and> reconnectAttempts (step cfg ev st) = Suc (reconnectAttempts st)"
    if "abnormal_close ev st" and "reconnectAttempts st < MAX_RECONNECT_ATTEMPTS"
    using close_schedules [OF assms that] by simp
  have fail: "error (step cfg ev st) = Some ConnectFailedRefresh
              \<and> effects (step cfg ev st) = effects (stopHeartbeat st) @ [ConsoleLog, ElMessageError]
              \<and> timeouts (step cfg ev st) = timeouts st
              \<and> length (socks (step cfg ev st)) = length (socks st)"
    if "abnormal_close ev st" and "MAX_RECONNECT_ATTEMPTS \<le> reconnectAttempts st"
    using close_fails [OF assms that] by simp
  have terminal: "timeouts (run cfg evs' st) = []
              \<and> length (socks (run cfg evs' st)) = length (socks st)
              \<and> reconnectAttempts (run cfg evs' st) = reconnectAttempts st"
    if "MAX_RECONNECT_ATTEMPTS \<le> reconnectAttempts st" and "timeouts st = []"
      and "list_all no_reset evs'"
    using failed_run [OF that] by simp
  from count sched fail terminal show ?thesis by blast
qed

theorem reconnect_ceiling_witness:
  "\<not> throws (onClose sample_cfg)
   \<and> abnormal_close (SockClose 0 False) (run sample_cfg [Connect] fresh_client)
   \<and> timeouts (step sample_cfg (SockClose 0 False) (run sample_cfg [Connect] fresh_client))
       = [(1, 1000)]
   \<and> reset_free sample_cfg six_closes fresh_client
   \<and> count_abnormal_closes sample_cfg six_closes fresh_client = 6
   \<and> reconnectAttempts (run sample_cfg six_closes fresh_client) = 5
   \<and> abnormal_close (SockClose 5 False) (run sample_cfg (five_closes @ [TimeoutFire 5]) fresh_client)
   \<and> error (step sample_cfg (SockClose 5 False)
         (run sample_cfg (five_closes @ [TimeoutFire 5]) fresh_client))
       = Some ConnectFailedRefresh
   \<and> timeouts (run sample_cfg six_closes fresh_client) = []
   \<and> list_all no_reset [SockClose 5 False, SockError 5, TimeoutFire 5, Send]
   \<and> length (socks (run sample_cfg [SockClose 5 False, SockError 5, TimeoutFire 5, Send]
         (run sample_cfg six_closes fresh_client))) = 6"
  using reconnect_ceiling [of sample_cfg fresh_client six_closes Connect "[Connect]"]
    reconnect_ceiling [of sample_cfg "run sample_cfg [Connect] fresh_client" "[]"
      "SockClose 0 False" "[Connect]"]
    reconnect_ceiling [of sample_cfg "run sample_cfg (five_closes @ [TimeoutFire 5]) fresh_client"
      "[]" "SockClose 5 False" "[Connect]"]
    reconnect_ceiling [of sample_cfg "run sample_cfg six_closes fresh_client"
      "[]" Connect "[SockClose 5 False, SockError 5, TimeoutFire 5, Send]"]
  unfolding after_connect after_five_closes_fire after_six_closes
  by (simp add: fresh_client_attempts six_closes_trace sample_cfg_fields handler_defs)

text \<open>
  The claim as stated fails: after exactly five abnormal closes in a row the error
  state is not set, the fifth reconnect is pending with a delay of 16000 ms, and when
  it fires a sixth socket is opened.
\<close>

theorem fifth_close_still_retries_counterexample:
  "count_abnormal_closes sample_cfg five_closes fresh_client = 5
   \<and> reconnectAttempts (run sample_cfg five_closes fresh_client) = 5
   \<and> error (run sample_cfg five_closes fresh_client) = None
   \<and> timeouts (run sample_cfg five_closes fresh_client) = [(5, 16000)]
   \<and> socks (run sample_cfg (five_closes @ [TimeoutFire 5]) fresh_client)
       = [CLOSED, CLOSED, CLOSED, CLOSED, CLOSED, CONNECTING]"
  by (simp add: five_closes_trace after_five_closes after_five_closes_fire)

section \<open>Where the attempt counter is reset\<close>

lemma socks_connect_new:
  assumes "\<not> no_token (token st)" and "\<not> socket_open st" and "\<not> connecting st"
    and "\<not> ws_throws st"
  shows "socks (connect st) = socks st @ [CONNECTING]"
  using assms by (simp add: connect_def Let_def emit_def)

text \<open>
  Claim C7, as the code has it. After every event the attempt counter is 0 if the event
  is one of four: an \<^verbatim>\<open>open\<close> of a socket, whatever the counter was; a change of the
  page to visible while neither connected nor connecting; \<^verbatim>\<open>disconnect()\<close>;
  \<^verbatim>\<open>resetReconnect()\<close>. After any other event it is unchanged, or one more after an
  abnormal close below the ceiling. On the change to visible \<^verbatim>\<open>connect()\<close> runs in the
  same step, without waiting for a pending reconnect timer (which stays pending), and
  opens a socket when a token is present.
\<close>

theorem attempts_reset_points:
  "reconnectAttempts (step cfg ev st) =
     (if resets_attempts ev st then 0
      else if abnormal_close ev st \<and> \<not> throws (onClose cfg)
              \<and> reconnectAttempts st < MAX_RECONNECT_ATTEMPTS
      then Suc (reconnectAttempts st)
      else reconnectAttempts st)
   \<and> reconnectAttempts (snd (ws_onopen cfg st)) = 0
   \<and> (\<not> connected st \<and> \<not> connecting st \<longrightarrow>
        step cfg (VisibilityChange True) st = connect (resetReconnect st)
        \<and> reconnectAttempts (step cfg (VisibilityChange True) st) = 0
        \<and> timeouts (step cfg (VisibilityChange True) st) = timeouts st
        \<and> (\<not> no_token (token st) \<and> \<not> socket_open st \<and> \<not> ws_throws st \<longrightarrow>
             socks (step cfg (VisibilityChange True) st) = socks st @ [CONNECTING]))"
proof -
  have vis: "step cfg (VisibilityChange True) st = connect (resetReconnect st)"
    if "\<not> connected st \<and> \<not> connecting st"
    using that by (simp add: on_visibilitychange_def)
  have zero: "reconnectAttempts (connect (resetReconnect st)) = 0"
    by (simp add: resetReconnect_def)
  have new: "socks (connect (resetReconnect st)) = socks st @ [CONNECTING]"
    if "\<not> connecting st" and "\<not> no_token (token st) \<and> \<not> socket_open st \<and> \<not> ws_throws st"
  proof -
    have "socket_open (resetReconnect st) = socket_open st"
      by (simp add: socket_open_def resetReconnect_def split: option.split)
    with that socks_connect_new [of "resetReconnect st"] show ?thesis
      by (simp add: resetReconnect_def)
  qed
  from vis zero new reconnectAttempts_step [of cfg ev st] show ?thesis
    by simp
qed

theorem attempts_reset_points_witness:
  "reconnectAttempts (run sample_cfg two_closes fresh_client) = 2
   \<and> timeouts (run sample_cfg two_closes fresh_client) = [(2, 2000)]
   \<and> \<not> connected (run sample_cfg two_closes fresh_client)
   \<and> \<not> connecting (run sample_cfg two_closes fresh_client)
   \<and> resets_attempts (VisibilityChange True) (run sample_cfg two_closes fresh_client)
   \<and> reconnectAttempts (step sample_cfg (VisibilityChange True)
         (run sample_cfg two_closes fresh_client)) = 0
   \<and> timeouts (step sample_cfg (VisibilityChange True)
         (run sample_cfg two_closes fresh_client)) = [(2, 2000)]
   \<and> socks (step sample_cfg (VisibilityChange True)
         (run sample_cfg two_closes fresh_client)) = [CLOSED, CLOSED, CONNECTING]
   \<and> \<not> resets_attempts (SockMessage 0 ''{}'') (run sample_cfg two_closes fresh_client)
   \<and> reconnectAttempts (step sample_cfg (SockMessage 0 ''{}'')
         (run sample_cfg two_closes fresh_client)) = 2"
  using attempts_reset_points [of sample_cfg "VisibilityChange True"
      "run sample_cfg two_closes fresh_client"]
    attempts_reset_points [of sample_cfg "SockMessage 0 ''{}''"
      "run sample_cfg two_closes fresh_client"]
  by (simp add: after_two_closes sample_cfg_fields handler_defs)

text \<open>
  The claim as stated fails: \<^verbatim>\<open>disconnect()\<close> and \<^verbatim>\<open>resetReconnect()\<close> reset the counter
  as well, and neither is an \<^verbatim>\<open>open\<close> event or a change of visibility.
\<close>

theorem disconnect_resets_attempts_counterexample:
  "reconnectAttempts (run sample_cfg two_closes fresh_client) = 2
   \<and> reconnectAttempts (step sample_cfg Disconnect (run sample_cfg two_closes fresh_client)) = 0
   \<and> reconnectAttempts (step sample_cfg ResetReconnect (run sample_cfg two_closes fresh_client)) = 0"
  by (simp add: after_two_closes handler_defs)

end
